theory Spec2Isabelle
  imports Main "HOL-Library.Multiset"
begin

section \<open>The star manager: data model\<close>

text \<open>
  A shallow embedding of \<^verbatim>\<open>starmanager.go\<close>. Go functions return a tuple of results, the
  last of which is an \<^verbatim>\<open>error\<close> that is \<^verbatim>\<open>nil\<close> on success: the model returns the same
  tuple, with the error as an \<open>error option\<close> (\<open>None\<close> is \<^verbatim>\<open>nil\<close>). A function can also
  end in a run-time panic, or block for ever on a channel; both are outcomes of the model.
  A Go slice whose elements are all that the program looks at is a list. The topics of a
  repository and of a record are copied and stored as they are; for them the model keeps the
  difference between the \<^verbatim>\<open>nil\<close> slice and a slice that was allocated. Both have the
  elements \<open>elems\<close>, none for the \<^verbatim>\<open>nil\<close> slice, and it is over these that \<^verbatim>\<open>range\<close>
  iterates.
\<close>

datatype 'a slice = Nil_slice | Slice "'a list"

fun elems :: "'a slice \<Rightarrow> 'a list" where
  "elems Nil_slice = []"
| "elems (Slice xs) = xs"

datatype error =
    URLError string          \<comment> \<open>an error of \<^verbatim>\<open>url.Parse\<close>\<close>
  | GatewayError string      \<comment> \<open>an error of the GitHub client\<close>
  | StoreError string        \<comment> \<open>an error of the storm database\<close>
  | ErrorsNew string         \<comment> \<open>\<^verbatim>\<open>errors.New(msg)\<close>\<close>

datatype panic =
    IndexOutOfRange nat nat  \<comment> \<open>index, length\<close>
  | SliceBoundsOutOfRange int
  | NilDereference

datatype 'a outcome =
    Return 'a
  | Panics panic
  | BlocksForever

text \<open>
  \<^verbatim>\<open>time.Time\<close>, presented by its calendar fields in UTC: the date and the nanoseconds
  since midnight. \<open>Before\<close> compares two instants. The local time zone, in which
  \<^verbatim>\<open>time.Now()\<close> does its calendar arithmetic, is taken to be UTC.
\<close>

record Time =
  Year :: int
  Month :: int
  Day :: int
  Nanos :: int

definition Before :: "Time \<Rightarrow> Time \<Rightarrow> bool" where
  "Before t u \<longleftrightarrow>
     Year t < Year u \<or>
     (Year t = Year u \<and> (Month t < Month u \<or>
       (Month t = Month u \<and> (Day t < Day u \<or>
         (Day t = Day u \<and> Nanos t < Nanos u)))))"

text \<open>The \<^verbatim>\<open>Star\<close> struct: the starred project that is saved locally, keyed by its URL.\<close>

record Star =
  PushedAt :: Time
  URL :: string
  Language :: string
  Stargazers :: int
  Archived :: bool
  Description :: string
  Topics :: "string slice"

text \<open>
  The fields of \<^verbatim>\<open>github.Repository\<close> that the program reads. All but the topics are
  pointers in the client library, so each of them can be \<^verbatim>\<open>nil\<close>; the topics are a slice,
  which is \<^verbatim>\<open>nil\<close> when the response of the service has none.
\<close>

record Repository =
  r_PushedAt :: "Time option"
  r_HTMLURL :: "string option"
  r_Language :: "string option"
  r_StargazersCount :: "int option"
  r_Description :: "string option"
  r_Topics :: "string slice"
  r_Archived :: "bool option"

section \<open>The record store\<close>

text \<open>
  The storm database is not part of the sources; its operations are modelled from the
  contract the specification gives for the Record Store. A store holds the saved records,
  at most one for each URL when it is well formed, and can be in a state where its reads or
  its writes fail, with the message of the error they report.
\<close>

record DB =
  rows :: "Star list"
  read_fault :: "string option"
  write_fault :: "string option"

definition wf_DB :: "DB \<Rightarrow> bool" where
  "wf_DB db \<longleftrightarrow> distinct (map URL (rows db))"

text \<open>Modelled from the spec: the Record Store's \<^verbatim>\<open>All() -> list of record\<close> (storm's \<^verbatim>\<open>DB.All\<close>).\<close>

definition DB_All :: "DB \<Rightarrow> Star list \<times> error option" where
  "DB_All db =
     (case read_fault db of Some msg \<Rightarrow> ([], Some (StoreError msg)) | None \<Rightarrow> (rows db, None))"

text \<open>
  Modelled from the spec: the Record Store's \<^verbatim>\<open>FindByPredicate(predicate) -> list of record\<close>,
  for the predicate \<^verbatim>\<open>q.Eq("Language", language)\<close> (storm's \<^verbatim>\<open>DB.Select(...).Find\<close>).
\<close>

definition DB_Select_Eq_Language :: "DB \<Rightarrow> string \<Rightarrow> Star list \<times> error option" where
  "DB_Select_Eq_Language db language =
     (case read_fault db of
        Some msg \<Rightarrow> ([], Some (StoreError msg))
      | None \<Rightarrow> (filter (\<lambda>star. Language star = language) (rows db), None))"

text \<open>
  Modelled from the spec: the Record Store's \<^verbatim>\<open>Upsert(record)\<close> (storm's \<^verbatim>\<open>DB.Save\<close> on a
  struct whose \<^verbatim>\<open>URL\<close> field is tagged \<^verbatim>\<open>id,unique\<close>): a record whose URL is already in the
  store is overwritten in place, any other record is added.
\<close>

definition upsert :: "Star \<Rightarrow> Star list \<Rightarrow> Star list" where
  "upsert star rs =
     (if URL star \<in> set (map URL rs)
      then map (\<lambda>r. if URL r = URL star then star else r) rs
      else rs @ [star])"

definition DB_Save :: "DB \<Rightarrow> Star \<Rightarrow> DB \<times> error option" where
  "DB_Save db star =
     (case write_fault db of
        Some msg \<Rightarrow> (db, Some (StoreError msg))
      | None \<Rightarrow> (db\<lparr>rows := upsert star (rows db)\<rparr>, None))"

text \<open>
  Modelled from the spec: the Record Store's \<^verbatim>\<open>DeleteByKey(key)\<close> (storm's
  \<^verbatim>\<open>DB.DeleteStruct\<close>, which deletes by the id field and reports a missing record).
\<close>

definition DB_DeleteStruct :: "DB \<Rightarrow> Star \<Rightarrow> DB \<times> error option" where
  "DB_DeleteStruct db star =
     (case write_fault db of
        Some msg \<Rightarrow> (db, Some (StoreError msg))
      | None \<Rightarrow>
          if URL star \<in> set (map URL (rows db))
          then (db\<lparr>rows := filter (\<lambda>r. URL r \<noteq> URL star) (rows db)\<rparr>, None)
          else (db, Some (StoreError ''not found'')))"

section \<open>Library functions\<close>

text \<open>
  \<^verbatim>\<open>strings.Split(s, sep)\<close> for a separator of one byte: the substrings of \<open>s\<close> between the
  separators. The result is never empty; \<^verbatim>\<open>strings.Split("", "/")\<close> is \<^verbatim>\<open>[""]\<close>.
\<close>

fun Split :: "string \<Rightarrow> char \<Rightarrow> string list" where
  "Split [] sep = [[]]"
| "Split (c # cs) sep =
     (if c = sep then [] # Split cs sep
      else (c # hd (Split cs sep)) # tl (Split cs sep))"

text \<open>
  \<^verbatim>\<open>strings.ToLower\<close> on the bytes of a string: the letters A to Z are mapped to a to z.
  (Go also maps upper-case letters outside ASCII; no statement below depends on which bytes
  are changed.)
\<close>

definition toLowerByte :: "char \<Rightarrow> char" where
  "toLowerByte c =
     (let n = (of_char c :: nat) in if 65 \<le> n \<and> n \<le> 90 then char_of (n + 32) else c)"

definition ToLower :: "string \<Rightarrow> string" where
  "ToLower s = map toLowerByte s"

text \<open>The one field of \<^verbatim>\<open>url.URL\<close> that the program reads.\<close>

record URL_t =
  Path :: string

section \<open>Removing a star\<close>

text \<open>
  \<^verbatim>\<open>RemoveStar\<close> (lines 311 to 336). \<^verbatim>\<open>url.Parse\<close> and the client's \<^verbatim>\<open>Activity.Unstar\<close> are
  parameters: \<open>urlParse\<close> gives the parsed URL or an error, \<open>Unstar owner repo\<close> gives the
  error of the remote call (its response is discarded by the code). The result is the store
  after the call with the two values the Go function returns. The index expressions
  \<^verbatim>\<open>splitPath[1]\<close> and \<^verbatim>\<open>splitPath[2]\<close> are evaluated in this order, before the call of
  \<^verbatim>\<open>Unstar\<close>, and panic when the index is not below the length. The wait group is
  incremented on entry and decremented on every exit, and does not change the result.
\<close>

definition RemoveStar ::
  "(string \<Rightarrow> error + URL_t) \<Rightarrow> (string \<Rightarrow> string \<Rightarrow> error option) \<Rightarrow> DB \<Rightarrow> Star
     \<Rightarrow> (DB \<times> bool \<times> error option) outcome" where
  "RemoveStar urlParse Unstar db star =
     (case urlParse (URL star) of
        Inl parseErr \<Rightarrow> Return (db, False, Some parseErr)
      | Inr starURL \<Rightarrow>
          let splitPath = Split (Path starURL) CHR ''/'' in
          if length splitPath \<le> 1 then Panics (IndexOutOfRange 1 (length splitPath))
          else if length splitPath \<le> 2 then Panics (IndexOutOfRange 2 (length splitPath))
          else
            (case Unstar (splitPath ! 1) (splitPath ! 2) of
               Some unstarErr \<Rightarrow> Return (db, False, Some unstarErr)
             | None \<Rightarrow>
                 (case DB_DeleteStruct db star of
                    (db', Some deleteErr) \<Rightarrow> Return (db', False, Some deleteErr)
                  | (db', None) \<Rightarrow> Return (db', True, None))))"

section \<open>Saving starred repositories\<close>

text \<open>
  \<^verbatim>\<open>SaveStarredRepository\<close> (lines 127 to 158). The argument is the pointer \<^verbatim>\<open>repo\<close>, which can
  be \<^verbatim>\<open>nil\<close>. The language and the description are guarded by the two \<^verbatim>\<open>nil\<close> checks; the
  other pointers are dereferenced as they are. The result is the store after the call and the
  error the function returns.
\<close>

definition new_Star :: "Repository \<Rightarrow> Star option" where
  \<comment> \<open>lines 130 to 151: the struct that is passed to \<^verbatim>\<open>DB.Save\<close>; \<open>None\<close> when building it
      dereferences a \<^verbatim>\<open>nil\<close> pointer\<close>
  "new_Star repo =
     (let lang = (case r_Language repo of Some l \<Rightarrow> l | None \<Rightarrow> '''');
          desc = (case r_Description repo of Some d \<Rightarrow> d | None \<Rightarrow> '''')
      in
      (case (r_PushedAt repo, r_HTMLURL repo, r_StargazersCount repo, r_Archived repo) of
         (Some pushedAt, Some htmlURL, Some stargazersCount, Some archived) \<Rightarrow>
           Some \<lparr>PushedAt = pushedAt,
                 URL = htmlURL,
                 Language = ToLower lang,
                 Stargazers = stargazersCount,
                 Archived = archived,
                 Description = desc,
                 Topics = r_Topics repo\<rparr>
       | _ \<Rightarrow> None))"

definition SaveStarredRepository :: "DB \<Rightarrow> Repository option \<Rightarrow> (DB \<times> error option) outcome" where
  "SaveStarredRepository db repo_ptr =
     (case repo_ptr of
        None \<Rightarrow> Panics NilDereference
      | Some repo \<Rightarrow>
          (case new_Star repo of
             None \<Rightarrow> Panics NilDereference
           | Some star \<Rightarrow>
               (case DB_Save db star of
                  (db', Some err) \<Rightarrow> Return (db', Some err)
                | (db', None) \<Rightarrow> Return (db', None))))"

text \<open>
  The goroutines that \<^verbatim>\<open>SaveStarredPage\<close> starts for the entries of one page, run one after
  the other in the order of the list (the store serialises its writes). The error of each
  save is dropped, as the \<^verbatim>\<open>go\<close> statement drops it; a panic ends the program.
\<close>

fun save_page :: "DB \<Rightarrow> Repository option list \<Rightarrow> DB outcome" where
  "save_page db [] = Return db"
| "save_page db (r # rs) =
     (case SaveStarredRepository db r of
        Return (db', _) \<Rightarrow> save_page db' rs
      | Panics p \<Rightarrow> Panics p
      | BlocksForever \<Rightarrow> BlocksForever)"

text \<open>The one field of \<^verbatim>\<open>github.Response\<close> that the program reads.\<close>

record Response =
  LastPage :: int

text \<open>
  \<^verbatim>\<open>SaveStarredPage\<close> (lines 162 to 197), the body of one call. \<open>ListStarred pageno\<close> is
  the client's \<^verbatim>\<open>Activity.ListStarred\<close> for that page (with \<^verbatim>\<open>PerPage = PageSize\<close>): the
  entries, the response and the error. \<open>responses\<close> tells whether a channel for the response
  was passed (it is \<^verbatim>\<open>nil\<close> otherwise); the channel that \<^verbatim>\<open>SaveAllStars\<close> passes has room for
  the one response sent to it.

  The channel \<^verbatim>\<open>errors\<close> is made without a buffer and no other goroutine holds it before
  the function returns it, so the send \<^verbatim>\<open>errors <- err\<close> can never be received: the call blocks
  there for ever. Otherwise the call returns what it did: the response it sent, the
  repositories for which it started a \<^verbatim>\<open>SaveStarredRepository\<close> goroutine, and the contents
  of the channel it returns, on which nothing was sent.
\<close>

record page_effects =
  sent :: "Response option"
  started :: "Repository option list"
  errors_chan :: "error list"

definition SaveStarredPage ::
  "(int \<Rightarrow> Repository option list \<times> Response \<times> error option) \<Rightarrow> int \<Rightarrow> bool
     \<Rightarrow> page_effects outcome" where
  "SaveStarredPage ListStarred pageno responses =
     (case ListStarred pageno of
        (firstPage, response, Some err) \<Rightarrow> BlocksForever
      | (firstPage, response, None) \<Rightarrow>
          Return \<lparr>sent = (if responses then Some response else None),
                  started = firstPage,
                  errors_chan = []\<rparr>)"

section \<open>Queries\<close>

text \<open>
  \<^verbatim>\<open>sort.Slice\<close> and the iteration over a Go map leave the order of equal elements, and of
  the keys, to the run time. They are parameters of the functions below, specified by what
  Go guarantees: the result is a rearrangement of the argument, and after \<^verbatim>\<open>sort.Slice\<close> no
  element is less than an earlier one.
\<close>

definition rearranges :: "('a list \<Rightarrow> 'a list) \<Rightarrow> bool" where
  "rearranges f \<longleftrightarrow> (\<forall>xs. mset (f xs) = mset xs)"

definition sorts_by :: "(('a \<Rightarrow> 'a \<Rightarrow> bool) \<Rightarrow> 'a list \<Rightarrow> 'a list) \<Rightarrow> ('a \<Rightarrow> 'a \<Rightarrow> bool) \<Rightarrow> bool" where
  "sorts_by sortSlice lt \<longleftrightarrow>
     (\<forall>xs. mset (sortSlice lt xs) = mset xs \<and>
           sorted_wrt (\<lambda>a b. \<not> lt b a) (sortSlice lt xs))"

text \<open>A key-value pair of \<^verbatim>\<open>GetTopics\<close>.\<close>

record KV =
  Key :: string
  Value :: int

text \<open>\<^verbatim>\<open>topicCounts[topic]++\<close> on a map kept as a list of its entries.\<close>

fun increment :: "string \<Rightarrow> (string \<times> int) list \<Rightarrow> (string \<times> int) list" where
  "increment topic [] = [(topic, 1)]"
| "increment topic ((k, v) # kvs) =
     (if k = topic then (k, v + 1) # kvs else (k, v) # increment topic kvs)"

text \<open>
  \<^verbatim>\<open>GetTopics\<close> (lines 238 to 261). The error of \<^verbatim>\<open>DB.All\<close> is not looked at; when the read
  fails \<^verbatim>\<open>stars\<close> keeps its initial value, the empty slice. \<open>rangeMap\<close> is the order in which
  the map is iterated.
\<close>

definition GetTopics ::
  "((string \<times> int) list \<Rightarrow> (string \<times> int) list) \<Rightarrow> ((KV \<Rightarrow> KV \<Rightarrow> bool) \<Rightarrow> KV list \<Rightarrow> KV list)
     \<Rightarrow> DB \<Rightarrow> KV list" where
  "GetTopics rangeMap sortSlice db =
     (let stars = fst (DB_All db);
          topicCounts = fold (\<lambda>star counts. fold increment (elems (Topics star)) counts) stars [];
          results = map (\<lambda>(topic, n). \<lparr>Key = topic, Value = n\<rparr>) (rangeMap topicCounts)
      in sortSlice (\<lambda>a b. Value a > Value b) results)"

text \<open>
  Modelled from the spec: \<^verbatim>\<open>utils.StringInSlice\<close>, a function of this repository outside the
  sources; the specification says that the topic filter keeps the records whose topics
  sequence contains that exact value.
\<close>

definition StringInSlice :: "string \<Rightarrow> string list \<Rightarrow> bool" where
  "StringInSlice a list \<longleftrightarrow> a \<in> set list"

text \<open>
  \<^verbatim>\<open>GetProjects\<close> (lines 265 to 308). \<open>Shuffle\<close> is \<^verbatim>\<open>rand.Shuffle\<close> under the seed taken from
  the clock. The slice expression \<^verbatim>\<open>stars[0:count]\<close> panics when \<open>count\<close> is negative.
\<close>

definition GetProjects ::
  "((Star \<Rightarrow> Star \<Rightarrow> bool) \<Rightarrow> Star list \<Rightarrow> Star list) \<Rightarrow> (Star list \<Rightarrow> Star list) \<Rightarrow> DB
     \<Rightarrow> int \<Rightarrow> string \<Rightarrow> string \<Rightarrow> bool \<Rightarrow> (Star list \<times> error option) outcome" where
  "GetProjects sortSlice Shuffle db count' language topic random =
     (case (if language \<noteq> '''' then DB_Select_Eq_Language db language else DB_All db) of
        (_, Some err) \<Rightarrow> Return ([], Some err)
      | (stars0, None) \<Rightarrow>
          let stars1 = (if topic \<noteq> ''''
                        then filter (\<lambda>star. StringInSlice topic (elems (Topics star))) stars0
                        else stars0);
              stars = (if random then Shuffle stars1
                       else sortSlice (\<lambda>a b. Stargazers a > Stargazers b) stars1)
          in
          if length stars > 0 then
            if int (length stars) > count' then
              (if count' < 0 then Panics (SliceBoundsOutOfRange count')
               else Return (take (nat count') stars, None))
            else Return (stars, None)
          else Return ([], Some (ErrorsNew ''No stars matching criteria found'')))"

section \<open>Cleanup\<close>

text \<open>
  \<^verbatim>\<open>t.AddDate(0, months, 0)\<close>: the month is moved and brought back into 1 to 12 with the
  year adjusted; a day that the new month does not have overflows into the next month, as
  Go's \<^verbatim>\<open>time.Date\<close> normalises it (October 31 minus one month is October 1).
\<close>

definition isLeap :: "int \<Rightarrow> bool" where
  "isLeap y \<longleftrightarrow> y mod 4 = 0 \<and> (y mod 100 \<noteq> 0 \<or> y mod 400 = 0)"

definition daysIn :: "int \<Rightarrow> int \<Rightarrow> int" where
  "daysIn y m =
     (if m = 2 then (if isLeap y then 29 else 28)
      else if m = 4 \<or> m = 6 \<or> m = 9 \<or> m = 11 then 30 else 31)"

definition AddDate_months :: "Time \<Rightarrow> int \<Rightarrow> Time" where
  "AddDate_months t months =
     (let m0 = Month t - 1 + months;
          y = Year t + m0 div 12;
          m = m0 mod 12 + 1
      in if Day t > daysIn y m
         then t\<lparr>Year := y, Month := m + 1, Day := Day t - daysIn y m\<rparr>
         else t\<lparr>Year := y, Month := m\<rparr>)"

text \<open>
  \<^verbatim>\<open>Cleanup\<close> (lines 339 to 380) up to the end of its first loop, \<open>now\<close> being the value of
  \<^verbatim>\<open>time.Now()\<close>: the error with which it returns when the store cannot be read, and
  otherwise the records for which it starts a goroutine that sends the record on the channel
  \<^verbatim>\<open>toDelete\<close>. The rest of the function starts a \<^verbatim>\<open>RemoveStar\<close> goroutine for every record
  it receives from that channel.
\<close>

definition Cleanup_queue :: "Time \<Rightarrow> DB \<Rightarrow> int \<Rightarrow> bool \<Rightarrow> Star list \<times> error option" where
  "Cleanup_queue now db age archived =
     (let then' = AddDate_months now (- age) in
      case DB_All db of
        (_, Some err) \<Rightarrow> ([], Some err)
      | (allStars, None) \<Rightarrow>
          (filter (\<lambda>star. Before (PushedAt star) then' \<or> Archived star = archived) allStars,
           None))"

section \<open>Saving all stars: the goroutines of \<^verbatim>\<open>SaveAllStars\<close>\<close>

text \<open>
  \<^verbatim>\<open>SaveAllStars\<close> (lines 200 to 217) starts \<^verbatim>\<open>SaveStarredPage\<close> as goroutines, which start
  \<^verbatim>\<open>SaveStarredRepository\<close> as goroutines, and waits on a \<^verbatim>\<open>sync.WaitGroup\<close>. The model is a
  machine whose state holds the program point of the main goroutine, the counter of the wait
  group, the buffer of the channel \<^verbatim>\<open>responses\<close> (of capacity 1), the goroutines that have
  been started and have not ended, each with its own program point, and the store. One step
  runs one statement of one goroutine; the scheduler is free to choose which.

  Program points of \<^verbatim>\<open>SaveStarredPage\<close>: before \<^verbatim>\<open>wg.Add(1)\<close>; before \<^verbatim>\<open>ListStarred\<close>; before the
  send on \<^verbatim>\<open>responses\<close>; in the loop that starts a goroutine for each entry; before the
  deferred \<^verbatim>\<open>wg.Done()\<close>; and blocked in \<^verbatim>\<open>errors <- err\<close>.
  Program points of \<^verbatim>\<open>SaveStarredRepository\<close>: before \<^verbatim>\<open>wg.Add(1)\<close>; before \<^verbatim>\<open>DB.Save\<close>; before
  the deferred \<^verbatim>\<open>wg.Done()\<close>.
  Program points of \<^verbatim>\<open>SaveAllStars\<close>: before the first \<^verbatim>\<open>go\<close>; before the receive from
  \<^verbatim>\<open>responses\<close>; in the loop over the pages \<open>i\<close> to \<open>LastPage\<close>; before \<^verbatim>\<open>wg.Wait()\<close>; returned.
\<close>

datatype page_pc =
    P_Add
  | P_List
  | P_Send "Repository option list" Response
  | P_Go "Repository option list"
  | P_Done
  | P_Blocked error

datatype repo_pc = R_Add | R_Save | R_Done

datatype goroutine =
    Page int bool page_pc
  | Repo "Repository option" repo_pc

datatype main_pc = M_Go | M_Recv | M_Loop int int | M_Wait | M_Returned

record run_state =
  main :: main_pc
  wg :: int
  responses :: "Response list"
  goroutines :: "goroutine list"
  store :: DB
  panicked :: "panic option"

definition SaveAllStars_start :: "DB \<Rightarrow> run_state" where
  "SaveAllStars_start db =
     \<lparr>main = M_Go, wg = 0, responses = [], goroutines = [], store = db, panicked = None\<rparr>"

text \<open>One step of the main goroutine; \<open>None\<close> when it is blocked or has returned.\<close>

definition step_main :: "run_state \<Rightarrow> run_state option" where
  "step_main s =
     (case main s of
        M_Go \<Rightarrow> Some (s\<lparr>goroutines := goroutines s @ [Page 1 True P_Add], main := M_Recv\<rparr>)
      | M_Recv \<Rightarrow>
          (case responses s of
             [] \<Rightarrow> None
           | firstPageResponse # rest \<Rightarrow>
               Some (s\<lparr>responses := rest, main := M_Loop 2 (LastPage firstPageResponse)\<rparr>))
      | M_Loop i lastPage \<Rightarrow>
          if i \<le> lastPage
          then Some (s\<lparr>goroutines := goroutines s @ [Page i False P_Add],
                       main := M_Loop (i + 1) lastPage\<rparr>)
          else Some (s\<lparr>main := M_Wait\<rparr>)
      | M_Wait \<Rightarrow> if wg s = 0 then Some (s\<lparr>main := M_Returned\<rparr>) else None
      | M_Returned \<Rightarrow> None)"

text \<open>One step of the goroutine at position \<open>k\<close>; \<open>None\<close> when it is blocked.\<close>

definition step_goroutine ::
  "(int \<Rightarrow> Repository option list \<times> Response \<times> error option) \<Rightarrow> nat \<Rightarrow> run_state
     \<Rightarrow> run_state option" where
  "step_goroutine ListStarred k s =
     (let gs = goroutines s in
      if length gs \<le> k then None
      else
        (case gs ! k of
           Page pageno resp pc \<Rightarrow>
             (case pc of
                P_Add \<Rightarrow> Some (s\<lparr>wg := wg s + 1, goroutines := gs[k := Page pageno resp P_List]\<rparr>)
              | P_List \<Rightarrow>
                  (case ListStarred pageno of
                     (firstPage, response, Some err) \<Rightarrow>
                       Some (s\<lparr>goroutines := gs[k := Page pageno resp (P_Blocked err)]\<rparr>)
                   | (firstPage, response, None) \<Rightarrow>
                       Some (s\<lparr>goroutines := gs[k := Page pageno resp (P_Send firstPage response)]\<rparr>))
              | P_Send firstPage response \<Rightarrow>
                  if resp then
                    (if length (responses s) < 1
                     then Some (s\<lparr>responses := responses s @ [response],
                                  goroutines := gs[k := Page pageno resp (P_Go firstPage)]\<rparr>)
                     else None)
                  else Some (s\<lparr>goroutines := gs[k := Page pageno resp (P_Go firstPage)]\<rparr>)
              | P_Go [] \<Rightarrow> Some (s\<lparr>goroutines := gs[k := Page pageno resp P_Done]\<rparr>)
              | P_Go (r # rs) \<Rightarrow>
                  Some (s\<lparr>goroutines := gs[k := Page pageno resp (P_Go rs)] @ [Repo r R_Add]\<rparr>)
              | P_Done \<Rightarrow> Some (s\<lparr>wg := wg s - 1, goroutines := take k gs @ drop (Suc k) gs\<rparr>)
              | P_Blocked err \<Rightarrow> None)
         | Repo repo pc \<Rightarrow>
             (case pc of
                R_Add \<Rightarrow> Some (s\<lparr>wg := wg s + 1, goroutines := gs[k := Repo repo R_Save]\<rparr>)
              | R_Save \<Rightarrow>
                  (case SaveStarredRepository (store s) repo of
                     Return (db', _) \<Rightarrow> Some (s\<lparr>store := db', goroutines := gs[k := Repo repo R_Done]\<rparr>)
                   | Panics p \<Rightarrow> Some (s\<lparr>panicked := Some p\<rparr>)
                   | BlocksForever \<Rightarrow> None)
              | R_Done \<Rightarrow> Some (s\<lparr>wg := wg s - 1, goroutines := take k gs @ drop (Suc k) gs\<rparr>))))"

text \<open>
  A schedule names, step by step, the goroutine that runs. \<open>run\<close> follows a schedule; it is
  \<open>None\<close> when the schedule picks a goroutine that cannot run, or goes on after a panic has
  ended the program.
\<close>

datatype choice = Main | Goroutine nat

fun run ::
  "(int \<Rightarrow> Repository option list \<times> Response \<times> error option) \<Rightarrow> choice list \<Rightarrow> run_state
     \<Rightarrow> run_state option" where
  "run ListStarred [] s = Some s"
| "run ListStarred (c # cs) s =
     (if panicked s \<noteq> None then None
      else
        (case (case c of Main \<Rightarrow> step_main s | Goroutine k \<Rightarrow> step_goroutine ListStarred k s) of
           None \<Rightarrow> None
         | Some s' \<Rightarrow> run ListStarred cs s'))"

text \<open>
  Under every schedule, as long as the main goroutine has not received the response of page
  1, the only page goroutine is the one of page 1: the goroutines of the pages from 2 on are
  started after the page count has been read.
\<close>

definition only_first_page :: "run_state \<Rightarrow> bool" where
  "only_first_page s \<longleftrightarrow>
     (main s = M_Go \<or> main s = M_Recv \<longrightarrow>
        (\<forall>g \<in> set (goroutines s). \<forall>i b pc. g = Page i b pc \<longrightarrow> i = 1))"

section \<open>Instances of the parameters\<close>

text \<open>
  An insertion sort: one function that meets the specification of \<^verbatim>\<open>sort.Slice\<close>, used to run
  the model on concrete stores.
\<close>

fun insert_sorted :: "('a \<Rightarrow> 'a \<Rightarrow> bool) \<Rightarrow> 'a \<Rightarrow> 'a list \<Rightarrow> 'a list" where
  "insert_sorted lt x [] = [x]"
| "insert_sorted lt x (y # ys) = (if lt x y then x # y # ys else y # insert_sorted lt x ys)"

fun insertion_sort :: "('a \<Rightarrow> 'a \<Rightarrow> bool) \<Rightarrow> 'a list \<Rightarrow> 'a list" where
  "insertion_sort lt [] = []"
| "insertion_sort lt (x # xs) = insert_sorted lt x (insertion_sort lt xs)"

text \<open>
  \<^verbatim>\<open>url.Parse\<close> on plain URLs, \<^verbatim>\<open>scheme://host/path\<close> without query, fragment or escapes: the
  path is what follows the host. A string with an ASCII control character is rejected, as
  \<^verbatim>\<open>url.Parse\<close> rejects it. Used to run the model on concrete records.
\<close>

fun after_authority :: "string \<Rightarrow> string option" where
  "after_authority (a # b # c # s) =
     (if a = CHR '':'' \<and> b = CHR ''/'' \<and> c = CHR ''/'' then Some (dropWhile (\<lambda>x. x \<noteq> CHR ''/'') s)
      else if a = CHR ''/'' then None
      else after_authority (b # c # s))"
| "after_authority s = None"

definition parse_plain :: "string \<Rightarrow> error + URL_t" where
  "parse_plain rawURL =
     (if \<exists>c \<in> set rawURL. (of_char c :: nat) < 32 \<or> (of_char c :: nat) = 127
      then Inl (URLError ''net/url: invalid control character in URL'')
      else (case after_authority rawURL of
              Some p \<Rightarrow> Inr \<lparr>Path = p\<rparr>
            | None \<Rightarrow> Inr \<lparr>Path = rawURL\<rparr>))"

text \<open>
  The selection as the specification words it: the records whose language equals the given
  one (all records when it is empty), narrowed to those whose topics contain the given topic
  when it is not empty.
\<close>

definition spec_narrowed :: "string \<Rightarrow> string \<Rightarrow> Star list \<Rightarrow> Star list" where
  "spec_narrowed language topic rs =
     filter (\<lambda>star. topic = '''' \<or> topic \<in> set (elems (Topics star)))
       (filter (\<lambda>star. language = '''' \<or> Language star = language) rs)"

section \<open>Auxiliary functions\<close>

text \<open>The record that a sequence of saves leaves in the store for a URL: the last one saved.\<close>

fun last_saved :: "Star list \<Rightarrow> string \<Rightarrow> Star option" where
  "last_saved [] u = None"
| "last_saved (s # ss) u =
     (case last_saved ss u of Some x \<Rightarrow> Some x | None \<Rightarrow> if URL s = u then Some s else None)"

text \<open>The records built from the entries of a page; \<open>None\<close> when building one of them panics.\<close>

fun page_Stars :: "Repository option list \<Rightarrow> Star list option" where
  "page_Stars [] = Some []"
| "page_Stars (r # rs) =
     (case r of
        None \<Rightarrow> None
      | Some repo \<Rightarrow>
          (case new_Star repo of
             None \<Rightarrow> None
           | Some star \<Rightarrow> (case page_Stars rs of None \<Rightarrow> None | Some ss \<Rightarrow> Some (star # ss))))"

section \<open>Concrete data\<close>

definition date :: "int \<Rightarrow> int \<Rightarrow> int \<Rightarrow> Time" where
  "date y m d = \<lparr>Year = y, Month = m, Day = d, Nanos = 0\<rparr>"

definition star_stars :: Star where
  "star_stars =
     \<lparr>PushedAt = date 2025 10 1, URL = ''https://github.com/gkze/stars'', Language = ''go'',
      Stargazers = 7, Archived = False, Description = ''manage stars'', Topics = Slice [''cli'']\<rparr>"

definition star_storm :: Star where
  "star_storm =
     \<lparr>PushedAt = date 2026 9 1, URL = ''https://github.com/asdine/storm'', Language = ''go'',
      Stargazers = 90, Archived = True, Description = ''bolt toolkit'', Topics = Slice [''db'', ''cli'']\<rparr>"

definition star_isabelle :: Star where
  "star_isabelle =
     \<lparr>PushedAt = date 2026 10 30, URL = ''https://github.com/isabelle-prover/mirror-isabelle'',
      Language = ''isabelle'', Stargazers = 40, Archived = False, Description = '''', Topics = Slice []\<rparr>"

definition star_no_path :: Star where
  "star_no_path =
     \<lparr>PushedAt = date 2025 10 1, URL = ''https://github.com'', Language = '''',
      Stargazers = 0, Archived = False, Description = '''', Topics = Slice []\<rparr>"

definition db_ok :: "Star list \<Rightarrow> DB" where
  "db_ok rs = \<lparr>rows = rs, read_fault = None, write_fault = None\<rparr>"

definition repo_stars :: Repository where
  "repo_stars =
     \<lparr>r_PushedAt = Some (date 2026 10 2), r_HTMLURL = Some ''https://github.com/gkze/stars'',
      r_Language = Some ''Go'', r_StargazersCount = Some 8, r_Description = None,
      r_Topics = Slice [], r_Archived = Some False\<rparr>"

definition repo_no_language :: Repository where
  "repo_no_language =
     \<lparr>r_PushedAt = Some (date 2026 1 1), r_HTMLURL = Some ''https://github.com/gkze/notes'',
      r_Language = None, r_StargazersCount = Some 1, r_Description = None,
      r_Topics = Nil_slice, r_Archived = Some False\<rparr>"

text \<open>A gateway with two pages, and one whose first page fails.\<close>

definition two_pages :: "int \<Rightarrow> Repository option list \<times> Response \<times> error option" where
  "two_pages pageno =
     (if pageno = 1 then ([Some repo_stars], \<lparr>LastPage = 2\<rparr>, None)
      else ([Some repo_no_language], \<lparr>LastPage = 2\<rparr>, None))"

definition failing_page :: "int \<Rightarrow> Repository option list \<times> Response \<times> error option" where
  "failing_page pageno = ([], \<lparr>LastPage = 0\<rparr>, Some (GatewayError ''502 Bad Gateway''))"

section \<open>Removal: what happens when the remote call fails, and when the path is short\<close>

lemma RemoveStar_changes_store:
  assumes "RemoveStar urlParse Unstar db star = Return (db', ok, err)" and "db' \<noteq> db"
  shows "\<exists>starURL. urlParse (URL star) = Inr starURL \<and>
           Unstar (Split (Path starURL) CHR ''/'' ! 1) (Split (Path starURL) CHR ''/'' ! 2) = None"
proof (cases "urlParse (URL star)")
  case (Inl parseErr)
  with assms show ?thesis by (simp add: RemoveStar_def)
next
  case (Inr starURL)
  let ?p = "Split (Path starURL) CHR ''/''"
  show ?thesis
  proof (cases "Unstar (?p ! 1) (?p ! 2)")
    case None
    with Inr show ?thesis by simp
  next
    case (Some unstarErr)
    with Inr assms show ?thesis
      by (simp add: RemoveStar_def Let_def split: if_splits)
  qed
qed

text \<open>
  C1. When the remote unstar call of \<^verbatim>\<open>RemoveStar\<close> fails, the function returns \<^verbatim>\<open>false\<close> with
  the error of the remote call and the store is the one it was called with; and whenever
  \<^verbatim>\<open>RemoveStar\<close> returns with a changed store, the remote call was made and succeeded.
\<close>

theorem RemoveStar_unstar_failure_keeps_store:
  "(urlParse (URL star) = Inr starURL \<and>
    2 < length (Split (Path starURL) CHR ''/'') \<and>
    Unstar (Split (Path starURL) CHR ''/'' ! 1) (Split (Path starURL) CHR ''/'' ! 2)
      = Some unstarErr
    \<longrightarrow> RemoveStar urlParse Unstar db star = Return (db, False, Some unstarErr))
   \<and>
   (RemoveStar urlParse Unstar db star = Return (db', ok, err) \<and> db' \<noteq> db
    \<longrightarrow> (\<exists>u. urlParse (URL star) = Inr u \<and>
           Unstar (Split (Path u) CHR ''/'' ! 1) (Split (Path u) CHR ''/'' ! 2) = None))"
proof (intro conjI impI)
  assume "urlParse (URL star) = Inr starURL \<and>
    2 < length (Split (Path starURL) CHR ''/'') \<and>
    Unstar (Split (Path starURL) CHR ''/'' ! 1) (Split (Path starURL) CHR ''/'' ! 2)
      = Some unstarErr"
  then show "RemoveStar urlParse Unstar db star = Return (db, False, Some unstarErr)"
    by (simp add: RemoveStar_def Let_def)
next
  assume "RemoveStar urlParse Unstar db star = Return (db', ok, err) \<and> db' \<noteq> db"
  then show "\<exists>u. urlParse (URL star) = Inr u \<and>
           Unstar (Split (Path u) CHR ''/'' ! 1) (Split (Path u) CHR ''/'' ! 2) = None"
    using RemoveStar_changes_store by blast
qed

lemma parse_plain_stars: "parse_plain (URL star_stars) = Inr \<lparr>Path = ''/gkze/stars''\<rparr>"
  by (simp add: parse_plain_def star_stars_def)

theorem RemoveStar_unstar_failure_keeps_store_witness:
  "parse_plain (URL star_stars) = Inr \<lparr>Path = ''/gkze/stars''\<rparr> \<and>
   2 < length (Split ''/gkze/stars'' CHR ''/'') \<and>
   (\<lambda>owner repo. if owner = ''gkze'' then Some (GatewayError ''404 Not Found'') else None)
      (Split ''/gkze/stars'' CHR ''/'' ! 1) (Split ''/gkze/stars'' CHR ''/'' ! 2)
      = Some (GatewayError ''404 Not Found'') \<and>
   RemoveStar parse_plain
      (\<lambda>owner repo. if owner = ''gkze'' then Some (GatewayError ''404 Not Found'') else None)
      (db_ok [star_stars, star_storm]) star_stars
     = Return (db_ok [star_stars, star_storm], False, Some (GatewayError ''404 Not Found'')) \<and>
   RemoveStar parse_plain (\<lambda>owner repo. None) (db_ok [star_stars, star_storm]) star_stars
     = Return (db_ok [star_storm], True, None) \<and>
   db_ok [star_storm] \<noteq> db_ok [star_stars, star_storm] \<and>
   (\<exists>u. parse_plain (URL star_stars) = Inr u \<and>
      (\<lambda>owner repo. None) (Split (Path u) CHR ''/'' ! 1) (Split (Path u) CHR ''/'' ! 2)
        = (None :: error option))"
proof -
  let ?fails = "\<lambda>owner repo. if owner = ''gkze'' then Some (GatewayError ''404 Not Found'') else None"
  let ?db = "db_ok [star_stars, star_storm]"
  have 1: "2 < length (Split ''/gkze/stars'' CHR ''/'')" by simp
  have 2: "?fails (Split ''/gkze/stars'' CHR ''/'' ! 1) (Split ''/gkze/stars'' CHR ''/'' ! 2)
      = Some (GatewayError ''404 Not Found'')" by simp
  have 3: "RemoveStar parse_plain ?fails ?db star_stars
      = Return (?db, False, Some (GatewayError ''404 Not Found''))"
    using RemoveStar_unstar_failure_keeps_store
      [of parse_plain star_stars "\<lparr>Path = ''/gkze/stars''\<rparr>" ?fails
          "GatewayError ''404 Not Found''" ?db]
      parse_plain_stars 1 2
    by simp
  have 4: "RemoveStar parse_plain (\<lambda>owner repo. None) ?db star_stars
      = Return (db_ok [star_storm], True, None)"
  proof -
    have "DB_DeleteStruct ?db star_stars = (db_ok [star_storm], None)"
      by (simp add: DB_DeleteStruct_def db_ok_def star_stars_def star_storm_def)
    then show ?thesis
      by (simp add: RemoveStar_def parse_plain_stars Let_def)
  qed
  have 5: "db_ok [star_storm] \<noteq> ?db" by (simp add: db_ok_def)
  have 6: "\<exists>u. parse_plain (URL star_stars) = Inr u \<and>
      (\<lambda>owner repo. None) (Split (Path u) CHR ''/'' ! 1) (Split (Path u) CHR ''/'' ! 2)
        = (None :: error option)"
    using RemoveStar_unstar_failure_keeps_store
      [of parse_plain star_stars _ "\<lambda>owner repo. None" _ ?db "db_ok [star_storm]" True None]
      4 5
    by simp
  from parse_plain_stars 1 2 3 4 5 6 show ?thesis by blast
qed

text \<open>
  C9. \<^verbatim>\<open>RemoveStar\<close> panics exactly when the URL of the record parses and its path splits
  on \<^verbatim>\<open>/\<close> into fewer than three parts, so that \<^verbatim>\<open>splitPath[1]\<close> or \<^verbatim>\<open>splitPath[2]\<close> is out
  of range; an empty path is such a case (index 1 of a slice of length 1). It does not
  panic when the path has a part for the owner and a part for the repository name after
  the leading separator.
\<close>

theorem RemoveStar_panics_on_short_path:
  "((\<exists>p. RemoveStar urlParse Unstar db star = Panics p) \<longleftrightarrow>
      (\<exists>starURL. urlParse (URL star) = Inr starURL \<and>
         length (Split (Path starURL) CHR ''/'') < 3))
   \<and>
   (urlParse (URL star) = Inr \<lparr>Path = ''''\<rparr>
      \<longrightarrow> RemoveStar urlParse Unstar db star = Panics (IndexOutOfRange 1 1))"
proof (intro conjI)
  show "(\<exists>p. RemoveStar urlParse Unstar db star = Panics p) \<longleftrightarrow>
      (\<exists>starURL. urlParse (URL star) = Inr starURL \<and>
         length (Split (Path starURL) CHR ''/'') < 3)"
  proof (cases "urlParse (URL star)")
    case (Inl parseErr)
    then show ?thesis by (simp add: RemoveStar_def)
  next
    case (Inr starURL)
    let ?n = "length (Split (Path starURL) CHR ''/'')"
    consider (none) "?n \<le> 1" | (owner_only) "?n = 2" | (enough) "2 < ?n"
      by linarith
    then show ?thesis
    proof cases
      case none
      with Inr show ?thesis by (simp add: RemoveStar_def Let_def)
    next
      case owner_only
      with Inr show ?thesis by (simp add: RemoveStar_def Let_def)
    next
      case enough
      with Inr show ?thesis
        by (simp add: RemoveStar_def Let_def split: option.splits prod.splits)
    qed
  qed
  show "urlParse (URL star) = Inr \<lparr>Path = ''''\<rparr>
      \<longrightarrow> RemoveStar urlParse Unstar db star = Panics (IndexOutOfRange 1 1)"
    by (simp add: RemoveStar_def)
qed

theorem RemoveStar_panics_on_short_path_witness:
  "parse_plain (URL star_no_path) = Inr \<lparr>Path = ''''\<rparr> \<and>
   RemoveStar parse_plain (\<lambda>owner repo. None) (db_ok [star_no_path]) star_no_path
     = Panics (IndexOutOfRange 1 1)"
proof -
  have p: "parse_plain (URL star_no_path) = Inr \<lparr>Path = ''''\<rparr>"
    by (simp add: parse_plain_def star_no_path_def)
  with RemoveStar_panics_on_short_path
         [of parse_plain "\<lambda>owner repo. None" "db_ok [star_no_path]" star_no_path]
  show ?thesis by simp
qed

section \<open>Queries: the selection of projects and the topic counts\<close>

lemma rearranges_Nil: "rearranges f \<Longrightarrow> f [] = []"
  unfolding rearranges_def by (metis mset_zero_iff)

lemma sorts_by_mset: "sorts_by srt lt \<Longrightarrow> mset (srt lt xs) = mset xs"
  unfolding sorts_by_def by simp

lemma sorts_by_Nil: "sorts_by srt lt \<Longrightarrow> srt lt [] = []"
  by (metis sorts_by_mset mset_zero_iff)

lemma mset_insert_sorted: "mset (insert_sorted lt x ys) = add_mset x (mset ys)"
  by (induction ys) auto

lemma mset_insertion_sort: "mset (insertion_sort lt xs) = mset xs"
  by (induction xs) (auto simp: mset_insert_sorted)

lemma set_insert_sorted: "set (insert_sorted lt x ys) = insert x (set ys)"
  by (induction ys) auto

lemma sorted_insert_sorted:
  fixes f :: "'a \<Rightarrow> int"
  assumes "sorted_wrt (\<lambda>a b. f b \<le> f a) ys"
  shows "sorted_wrt (\<lambda>a b. f b \<le> f a) (insert_sorted (\<lambda>a b. f b < f a) x ys)"
  using assms by (induction ys) (auto simp: set_insert_sorted)

lemma sorted_insertion_sort:
  fixes f :: "'a \<Rightarrow> int"
  shows "sorted_wrt (\<lambda>a b. f b \<le> f a) (insertion_sort (\<lambda>a b. f b < f a) xs)"
  by (induction xs) (auto simp: sorted_insert_sorted)

lemma insertion_sort_sorts_by:
  fixes f :: "'a \<Rightarrow> int"
  shows "sorts_by insertion_sort (\<lambda>a b. f a > f b)"
  unfolding sorts_by_def
  by (simp add: mset_insertion_sort sorted_insertion_sort not_less)

lemma rearranges_rev: "rearranges rev"
  by (simp add: rearranges_def)

lemma rearranges_id: "rearranges (\<lambda>xs. xs)"
  by (simp add: rearranges_def)

text \<open>What \<^verbatim>\<open>GetProjects\<close> does when the store can be read.\<close>

lemma GetProjects_read_ok:
  assumes "read_fault db = None"
  shows "GetProjects sortSlice Shuffle db count' language topic random =
     (let stars = (if random then Shuffle (spec_narrowed language topic (rows db))
                   else sortSlice (\<lambda>a b. Stargazers a > Stargazers b)
                          (spec_narrowed language topic (rows db)))
      in if stars = [] then Return ([], Some (ErrorsNew ''No stars matching criteria found''))
         else if int (length stars) > count' then
           (if count' < 0 then Panics (SliceBoundsOutOfRange count')
            else Return (take (nat count') stars, None))
         else Return (stars, None))"
proof (cases "language = ''''")
  case True
  show ?thesis
  proof (cases "topic = ''''")
    case True
    with \<open>language = ''''\<close> assms show ?thesis
      by (simp add: GetProjects_def spec_narrowed_def DB_All_def Let_def)
  next
    case False
    with \<open>language = ''''\<close> assms show ?thesis
      by (simp add: GetProjects_def spec_narrowed_def DB_All_def Let_def StringInSlice_def)
  qed
next
  case False
  show ?thesis
  proof (cases "topic = ''''")
    case True
    with \<open>language \<noteq> ''''\<close> assms show ?thesis
      by (simp add: GetProjects_def spec_narrowed_def DB_Select_Eq_Language_def Let_def)
  next
    case False
    with \<open>language \<noteq> ''''\<close> assms show ?thesis
      by (simp add: GetProjects_def spec_narrowed_def DB_Select_Eq_Language_def Let_def
          StringInSlice_def)
  qed
qed

lemma GetProjects_read_fault:
  assumes "read_fault db = Some msg"
  shows "GetProjects sortSlice Shuffle db count' language topic random
           = Return ([], Some (StoreError msg))"
  using assms by (simp add: GetProjects_def DB_All_def DB_Select_Eq_Language_def)

text \<open>
  C5. When the store can be read and no record is left after the language and topic filters,
  \<^verbatim>\<open>GetProjects\<close> returns the error \<^verbatim>\<open>No stars matching criteria found\<close> (never a \<^verbatim>\<open>nil\<close> error
  with an empty list), for every count and for the sorted and the shuffled order alike.
  A store whose read fails makes it return the error of the store, which is another error.
\<close>

theorem GetProjects_no_match_error:
  assumes "sorts_by sortSlice (\<lambda>a b. Stargazers a > Stargazers b)" and "rearranges Shuffle"
    and "read_fault db = None"
    and "spec_narrowed language topic (rows db) = []"
  shows "GetProjects sortSlice Shuffle db count' language topic random
           = Return ([], Some (ErrorsNew ''No stars matching criteria found'')) \<and>
         (\<forall>db' msg. read_fault db' = Some msg \<longrightarrow>
            GetProjects sortSlice Shuffle db' count' language topic random
              = Return ([], Some (StoreError msg)) \<and>
            StoreError msg \<noteq> ErrorsNew ''No stars matching criteria found'')"
  using assms
  by (simp add: GetProjects_read_ok GetProjects_read_fault sorts_by_Nil rearranges_Nil)

theorem GetProjects_no_match_error_witness:
  "sorts_by insertion_sort (\<lambda>a b. Stargazers a > Stargazers b) \<and> rearranges rev \<and>
   read_fault (db_ok [star_stars, star_isabelle]) = None \<and>
   spec_narrowed ''go'' ''db'' (rows (db_ok [star_stars, star_isabelle])) = [] \<and>
   GetProjects insertion_sort rev (db_ok [star_stars, star_isabelle]) 5 ''go'' ''db'' False
     = Return ([], Some (ErrorsNew ''No stars matching criteria found'')) \<and>
   read_fault \<lparr>rows = [star_stars], read_fault = Some ''timeout'', write_fault = None\<rparr>
     = Some ''timeout'' \<and>
   GetProjects insertion_sort rev
       \<lparr>rows = [star_stars], read_fault = Some ''timeout'', write_fault = None\<rparr>
       5 ''go'' ''db'' False
     = Return ([], Some (StoreError ''timeout''))"
proof -
  let ?db = "db_ok [star_stars, star_isabelle]"
  let ?dbf = "\<lparr>rows = [star_stars], read_fault = Some ''timeout'', write_fault = None\<rparr>"
  have 1: "sorts_by insertion_sort (\<lambda>a b. Stargazers a > Stargazers b)"
    by (rule insertion_sort_sorts_by)
  have 2: "read_fault ?db = None" by (simp add: db_ok_def)
  have 3: "spec_narrowed ''go'' ''db'' (rows ?db) = []"
    by (simp add: spec_narrowed_def db_ok_def star_stars_def star_isabelle_def)
  have 4: "read_fault ?dbf = Some ''timeout''" by simp
  from GetProjects_no_match_error [OF 1 rearranges_rev 2 3, of 5 False] 4
  have "GetProjects insertion_sort rev ?db 5 ''go'' ''db'' False
          = Return ([], Some (ErrorsNew ''No stars matching criteria found'')) \<and>
        GetProjects insertion_sort rev ?dbf 5 ''go'' ''db'' False
          = Return ([], Some (StoreError ''timeout''))"
    by blast
  with 1 rearranges_rev 2 3 4 show ?thesis by blast
qed

text \<open>
  C6, as the code has it. With \<open>random = false\<close>, a store that can be read and a count that
  is not negative, \<^verbatim>\<open>GetProjects\<close> returns a rearrangement of the selection of the
  specification in which no record has more stargazers than an earlier one, cut to its first
  \<open>count\<close> records when it has more than that and in full otherwise; an empty selection is
  returned with the error for no match.
\<close>

theorem GetProjects_sorted_selection:
  assumes "sorts_by sortSlice (\<lambda>a b. Stargazers a > Stargazers b)"
    and "read_fault db = None"
    and "0 \<le> count'"
  shows "\<exists>ranked.
           mset ranked = mset (spec_narrowed language topic (rows db)) \<and>
           sorted_wrt (\<lambda>a b. Stargazers a \<ge> Stargazers b) ranked \<and>
           GetProjects sortSlice Shuffle db count' language topic False =
             (if ranked = []
              then Return ([], Some (ErrorsNew ''No stars matching criteria found''))
              else if int (length ranked) > count' then Return (take (nat count') ranked, None)
              else Return (ranked, None))"
proof -
  let ?lt = "\<lambda>a b. Stargazers a > Stargazers b"
  let ?s = "sortSlice ?lt (spec_narrowed language topic (rows db))"
  have m: "mset ?s = mset (spec_narrowed language topic (rows db))"
    using assms(1) by (rule sorts_by_mset)
  have "sorted_wrt (\<lambda>a b. \<not> ?lt b a) ?s"
    using assms(1) unfolding sorts_by_def by blast
  then have s: "sorted_wrt (\<lambda>a b. Stargazers a \<ge> Stargazers b) ?s"
    by (simp add: not_less)
  have g: "GetProjects sortSlice Shuffle db count' language topic False =
              (if ?s = [] then Return ([], Some (ErrorsNew ''No stars matching criteria found''))
               else if int (length ?s) > count' then Return (take (nat count') ?s, None)
               else Return (?s, None))"
    using assms(2,3) by (simp add: GetProjects_read_ok Let_def)
  from m s g show ?thesis by blast
qed

theorem GetProjects_sorted_selection_witness:
  "sorts_by insertion_sort (\<lambda>a b. Stargazers a > Stargazers b) \<and>
   read_fault (db_ok [star_stars, star_isabelle, star_storm]) = None \<and> (0::int) \<le> 1 \<and>
   (\<exists>ranked.
      mset ranked = mset (spec_narrowed ''go'' '''' (rows (db_ok [star_stars, star_isabelle, star_storm]))) \<and>
      sorted_wrt (\<lambda>a b. Stargazers a \<ge> Stargazers b) ranked \<and>
      GetProjects insertion_sort rev (db_ok [star_stars, star_isabelle, star_storm]) 1 ''go'' '''' False =
        (if ranked = []
         then Return ([], Some (ErrorsNew ''No stars matching criteria found''))
         else if int (length ranked) > 1 then Return (take (nat 1) ranked, None)
         else Return (ranked, None)))"
proof -
  let ?db = "db_ok [star_stars, star_isabelle, star_storm]"
  have 1: "sorts_by insertion_sort (\<lambda>a b. Stargazers a > Stargazers b)"
    by (rule insertion_sort_sorts_by)
  have 2: "read_fault ?db = None" by (simp add: db_ok_def)
  have 3: "(0::int) \<le> 1" by simp
  from 1 2 3 GetProjects_sorted_selection [OF 1 2 3, of "''go''" "''''" rev]
  show ?thesis by blast
qed

text \<open>
  The claim as it is worded fails in two places. For a negative count the selection has more
  records than the count, and the slice expression \<^verbatim>\<open>stars[0:count]\<close> panics instead of
  returning records. For an empty selection the call does not succeed with the empty
  selection in full: it returns the error for no match.
\<close>

theorem GetProjects_negative_count_panics:
  "GetProjects insertion_sort rev (db_ok [star_stars]) (- 1) '''' '''' False
     = Panics (SliceBoundsOutOfRange (- 1)) \<and>
   GetProjects insertion_sort rev (db_ok [star_stars]) 5 '''' ''db'' False
     = Return ([], Some (ErrorsNew ''No stars matching criteria found''))"
  by (simp add: GetProjects_def DB_All_def db_ok_def Let_def StringInSlice_def star_stars_def)

text \<open>
  C10. \<^verbatim>\<open>GetTopics\<close> returns a list and no error. When the read of the store fails, the
  result is the empty list: the same result as for a store that can be read and is empty.
\<close>

theorem GetTopics_hides_read_failure:
  assumes "rearranges rangeMap" and "sorts_by sortSlice (\<lambda>a b. Value a > Value b)"
    and "read_fault db = Some msg"
  shows "GetTopics rangeMap sortSlice db = [] \<and>
         GetTopics rangeMap sortSlice db
           = GetTopics rangeMap sortSlice \<lparr>rows = [], read_fault = None, write_fault = None\<rparr>"
  using assms by (simp add: GetTopics_def DB_All_def rearranges_Nil sorts_by_Nil)

theorem GetTopics_hides_read_failure_witness:
  "rearranges (\<lambda>xs :: (string \<times> int) list. xs) \<and>
   sorts_by insertion_sort (\<lambda>a b. Value a > Value b) \<and>
   read_fault \<lparr>rows = [star_stars, star_storm], read_fault = Some ''timeout'', write_fault = None\<rparr>
     = Some ''timeout'' \<and>
   GetTopics (\<lambda>xs. xs) insertion_sort
     \<lparr>rows = [star_stars, star_storm], read_fault = Some ''timeout'', write_fault = None\<rparr> = [] \<and>
   GetTopics (\<lambda>xs. xs) insertion_sort
     \<lparr>rows = [star_stars, star_storm], read_fault = Some ''timeout'', write_fault = None\<rparr>
     = GetTopics (\<lambda>xs. xs) insertion_sort \<lparr>rows = [], read_fault = None, write_fault = None\<rparr>"
proof -
  let ?dbf = "\<lparr>rows = [star_stars, star_storm], read_fault = Some ''timeout'', write_fault = None\<rparr>"
  have 1: "sorts_by insertion_sort (\<lambda>a b. Value a > Value b)"
    by (rule insertion_sort_sorts_by)
  have 2: "read_fault ?dbf = Some ''timeout''" by simp
  from rearranges_id 1 2 GetTopics_hides_read_failure [OF rearranges_id 1 2]
  show ?thesis by blast
qed

section \<open>Cleanup: the records that are queued\<close>

lemma daysIn_pos: "0 < daysIn y m"
  by (simp add: daysIn_def)

lemma AddDate_months_unfold:
  assumes "y = Year t + (Month t - 1 + months) div 12"
    and "m = (Month t - 1 + months) mod 12 + 1"
  shows "AddDate_months t months =
      (if Day t > daysIn y m
       then t\<lparr>Year := y, Month := m + 1, Day := Day t - daysIn y m\<rparr>
       else t\<lparr>Year := y, Month := m\<rparr>)"
  unfolding AddDate_months_def Let_def assms by (rule refl)

lemma Before_year: "Year t < Year u \<Longrightarrow> Before t u"
  by (simp add: Before_def)

lemma Before_month: "Year t = Year u \<Longrightarrow> Month t < Month u \<Longrightarrow> Before t u"
  by (simp add: Before_def)

lemma Before_day: "Year t = Year u \<Longrightarrow> Month t = Month u \<Longrightarrow> Day t < Day u \<Longrightarrow> Before t u"
  by (simp add: Before_def)

lemma div12_next_wrap:
  fixes k :: int
  assumes "k mod 12 = 11"
  shows "(k + 1) div 12 = k div 12 + 1"
proof -
  define q where "q = k div 12"
  have "k = 12 * q + k mod 12" unfolding q_def by simp
  with assms have "k = 12 * q + 11" by simp
  then have "k + 1 = 12 * (q + 1) + 0" by simp
  then have "(k + 1) div 12 = q + 1" by (rule int_div_pos_eq) simp_all
  then show ?thesis by (simp only: q_def)
qed

lemma div12_next_same:
  fixes k :: int
  assumes "k mod 12 < 11"
  shows "(k + 1) div 12 = k div 12" and "(k + 1) mod 12 = k mod 12 + 1"
proof -
  define q where "q = k div 12"
  define r where "r = k mod 12"
  have "k = 12 * q + r" unfolding q_def r_def by simp
  then have k1: "k + 1 = 12 * q + (r + 1)" by simp
  have "0 \<le> r" unfolding r_def by simp
  then have r0: "0 \<le> r + 1" by simp
  from assms have r1: "r + 1 < 12" unfolding r_def by simp
  have "(k + 1) div 12 = q" using k1 r0 r1 by (rule int_div_pos_eq)
  then show "(k + 1) div 12 = k div 12" by (simp only: q_def)
  have "(k + 1) mod 12 = r + 1" using k1 r0 r1 by (rule int_mod_pos_eq)
  then show "(k + 1) mod 12 = k mod 12 + 1" by (simp only: r_def)
qed

text \<open>Thirteen months back is before twelve months back, for every date.\<close>

lemma thirteen_months_before_twelve:
  "Before (AddDate_months now (- 13)) (AddDate_months now (- 12))"
proof -
  define k where "k = Month now - 1 + - 13"
  define y where "y = Year now + k div 12"
  define m where "m = k mod 12 + 1"
  have k12: "Month now - 1 + - 12 = k + 1" by (simp add: k_def)
  have t13: "AddDate_months now (- 13) =
      (if Day now > daysIn y m
       then now\<lparr>Year := y, Month := m + 1, Day := Day now - daysIn y m\<rparr>
       else now\<lparr>Year := y, Month := m\<rparr>)"
    by (rule AddDate_months_unfold) (simp_all only: y_def m_def k_def)
  have y13: "Year (AddDate_months now (- 13)) = y"
    by (simp add: t13)
  have "0 \<le> k mod 12" and "k mod 12 < 12" by simp_all
  then consider (wrap) "k mod 12 = 11" | (same) "k mod 12 < 11"
    by linarith
  then show ?thesis
  proof cases
    case wrap
    then have "(k + 1) div 12 = k div 12 + 1" by (rule div12_next_wrap)
    then have "AddDate_months now (- 12) =
      (if Day now > daysIn (y + 1) ((k + 1) mod 12 + 1)
       then now\<lparr>Year := y + 1, Month := (k + 1) mod 12 + 1 + 1,
                 Day := Day now - daysIn (y + 1) ((k + 1) mod 12 + 1)\<rparr>
       else now\<lparr>Year := y + 1, Month := (k + 1) mod 12 + 1\<rparr>)"
      by (intro AddDate_months_unfold) (simp_all only: k12 y_def add.assoc)
    then have "Year (AddDate_months now (- 12)) = y + 1"
      by simp
    with y13 show ?thesis by (intro Before_year) simp
  next
    case same
    then have "(k + 1) div 12 = k div 12" and "(k + 1) mod 12 + 1 = m + 1"
      by (simp_all only: div12_next_same m_def)
    then have t12: "AddDate_months now (- 12) =
      (if Day now > daysIn y (m + 1)
       then now\<lparr>Year := y, Month := m + 1 + 1, Day := Day now - daysIn y (m + 1)\<rparr>
       else now\<lparr>Year := y, Month := m + 1\<rparr>)"
      by (intro AddDate_months_unfold) (simp_all only: k12 y_def)
    show ?thesis
    proof (cases "Day now > daysIn y m")
      case over13: True
      show ?thesis
      proof (cases "Day now > daysIn y (m + 1)")
        case True
        with over13 show ?thesis
          by (intro Before_month) (simp_all add: t13 t12)
      next
        case False
        with over13 daysIn_pos [of y m] show ?thesis
          by (intro Before_day) (simp_all add: t13 t12)
      qed
    next
      case False
      then show ?thesis
        by (intro Before_month) (simp_all add: t13 t12)
    qed
  qed
qed

lemma Cleanup_queue_read_ok:
  assumes "Cleanup_queue now db age archived = (queued, None)"
  shows "queued =
     filter (\<lambda>star. Before (PushedAt star) (AddDate_months now (- age)) \<or>
                    Archived star = archived) (rows db)"
  using assms
  by (auto simp: Cleanup_queue_def DB_All_def Let_def split: option.splits)

text \<open>
  C4. Of the records of the store, \<^verbatim>\<open>Cleanup\<close> queues for removal exactly those that were
  pushed before \<open>now\<close> minus \<open>age\<close> months, or whose archived flag equals the argument:
  either condition is enough. In particular a record pushed thirteen months before \<open>now\<close>
  and not archived is queued by \<^verbatim>\<open>Cleanup(12, true)\<close>.
\<close>

theorem Cleanup_queues_old_or_archived:
  "(Cleanup_queue now db age archived = (queued, None) \<longrightarrow>
      (star \<in> set queued \<longleftrightarrow>
         star \<in> set (rows db) \<and>
         (Before (PushedAt star) (AddDate_months now (- age)) \<or> Archived star = archived)))
   \<and>
   (Cleanup_queue now db 12 True = (queued', None) \<and> star \<in> set (rows db) \<and>
    PushedAt star = AddDate_months now (- 13) \<and> Archived star = False
      \<longrightarrow> star \<in> set queued')"
proof (intro conjI impI)
  assume "Cleanup_queue now db age archived = (queued, None)"
  then have "queued =
     filter (\<lambda>star. Before (PushedAt star) (AddDate_months now (- age)) \<or>
                    Archived star = archived) (rows db)"
    by (rule Cleanup_queue_read_ok)
  then show "star \<in> set queued \<longleftrightarrow>
         star \<in> set (rows db) \<and>
         (Before (PushedAt star) (AddDate_months now (- age)) \<or> Archived star = archived)"
    by auto
next
  assume a: "Cleanup_queue now db 12 True = (queued', None) \<and> star \<in> set (rows db) \<and>
    PushedAt star = AddDate_months now (- 13) \<and> Archived star = False"
  then have "queued' =
     filter (\<lambda>star. Before (PushedAt star) (AddDate_months now (- 12)) \<or>
                    Archived star = True) (rows db)"
    using Cleanup_queue_read_ok [of now db 12 True queued'] by simp
  with a thirteen_months_before_twelve [of now] show "star \<in> set queued'"
    by simp
qed

theorem Cleanup_queues_old_or_archived_witness:
  "Cleanup_queue (date 2026 10 31) (db_ok [star_stars, star_isabelle, star_storm]) 12 True
     = ([star_stars, star_storm], None) \<and>
   star_stars \<in> set (rows (db_ok [star_stars, star_isabelle, star_storm])) \<and>
   PushedAt star_stars = AddDate_months (date 2026 10 31) (- 13) \<and>
   Archived star_stars = False \<and>
   star_stars \<in> set [star_stars, star_storm] \<and>
   (star_isabelle \<in> set [star_stars, star_storm] \<longleftrightarrow>
      star_isabelle \<in> set (rows (db_ok [star_stars, star_isabelle, star_storm])) \<and>
      (Before (PushedAt star_isabelle) (AddDate_months (date 2026 10 31) (- 12)) \<or>
       Archived star_isabelle = True))"
proof -
  let ?db = "db_ok [star_stars, star_isabelle, star_storm]"
  let ?now = "date 2026 10 31"
  have then': "AddDate_months ?now (- 12) = date 2025 10 31"
    by (simp add: date_def AddDate_months_def daysIn_def)
  have b1: "Before (PushedAt star_stars) (date 2025 10 31)"
    by (simp add: star_stars_def date_def Before_def)
  have b2: "\<not> Before (PushedAt star_isabelle) (date 2025 10 31)"
    by (simp add: star_isabelle_def date_def Before_def)
  have a: "Archived star_stars = False" "Archived star_isabelle = False"
    "Archived star_storm = True"
    by (simp_all add: star_stars_def star_isabelle_def star_storm_def)
  have 1: "Cleanup_queue ?now ?db 12 True = ([star_stars, star_storm], None)"
    by (simp add: Cleanup_queue_def DB_All_def db_ok_def then' b1 b2 a)
  have 2: "star_stars \<in> set (rows ?db)" by (simp add: db_ok_def)
  have 3: "PushedAt star_stars = AddDate_months ?now (- 13)"
    by (simp add: star_stars_def date_def AddDate_months_def daysIn_def)
  note inst = Cleanup_queues_old_or_archived
               [of ?now ?db 12 True "[star_stars, star_storm]" _ "[star_stars, star_storm]"]
  have 5: "star_stars \<in> set [star_stars, star_storm]"
    using inst [of star_stars, THEN conjunct2, THEN mp] 1 2 3 a(1) by blast
  have 6: "star_isabelle \<in> set [star_stars, star_storm] \<longleftrightarrow>
      star_isabelle \<in> set (rows ?db) \<and>
      (Before (PushedAt star_isabelle) (AddDate_months ?now (- 12)) \<or>
       Archived star_isabelle = True)"
    using inst [of star_isabelle, THEN conjunct1, THEN mp, OF 1] .
  from 1 2 3 a(1) 5 6 show ?thesis by blast
qed

section \<open>Saving: normalisation and the URL as the key\<close>

lemma new_Star_Some:
  assumes "r_PushedAt repo = Some pushedAt" and "r_HTMLURL repo = Some htmlURL"
    and "r_StargazersCount repo = Some n" and "r_Archived repo = Some archived"
  shows "new_Star repo =
     Some \<lparr>PushedAt = pushedAt, URL = htmlURL,
           Language = ToLower (case r_Language repo of Some l \<Rightarrow> l | None \<Rightarrow> ''''),
           Stargazers = n, Archived = archived,
           Description = (case r_Description repo of Some d \<Rightarrow> d | None \<Rightarrow> ''''),
           Topics = r_Topics repo\<rparr>"
  using assms by (simp add: new_Star_def)

lemma map_URL_upsert:
  "map URL (upsert star rs) =
     (if URL star \<in> set (map URL rs) then map URL rs else map URL rs @ [URL star])"
  by (induction rs) (auto simp: upsert_def)

lemma upsert_present:
  "URL star \<in> set (map URL rs) \<Longrightarrow>
     upsert star rs = map (\<lambda>r. if URL r = URL star then star else r) rs"
  by (simp add: upsert_def)

lemma distinct_upsert: "distinct (map URL rs) \<Longrightarrow> distinct (map URL (upsert star rs))"
  by (simp add: map_URL_upsert)

lemma in_upsert: "star \<in> set (upsert star rs)"
  by (auto simp: upsert_def image_iff)

lemma upsert_same_URL: "r \<in> set (upsert star rs) \<Longrightarrow> URL r = URL star \<Longrightarrow> r = star"
proof (cases "URL star \<in> set (map URL rs)")
  case True
  assume "r \<in> set (upsert star rs)"
  with True obtain r0 where "r0 \<in> set rs" "r = (if URL r0 = URL star then star else r0)"
    by (auto simp: upsert_def)
  moreover assume "URL r = URL star"
  ultimately show ?thesis by (cases "URL r0 = URL star") simp_all
next
  case False
  assume "r \<in> set (upsert star rs)"
  with False have "r \<in> set rs \<or> r = star" by (auto simp: upsert_def)
  moreover assume u: "URL r = URL star"
  have "r \<in> set rs \<Longrightarrow> URL r \<in> set (map URL rs)" by simp
  with u False have "r \<notin> set rs" by metis
  ultimately show ?thesis by blast
qed

lemma upsert_other_URL: "r \<in> set (upsert star rs) \<Longrightarrow> URL r \<noteq> URL star \<Longrightarrow> r \<in> set rs"
  by (auto simp: upsert_def split: if_splits)

lemma URLs_upsert: "set (map URL (upsert star rs)) = insert (URL star) (set (map URL rs))"
  by (auto simp: map_URL_upsert)

lemma URLs_fold_upsert:
  "set (map URL (fold upsert ss rs)) = set (map URL ss) \<union> set (map URL rs)"
  by (induction ss arbitrary: rs) (auto simp: URLs_upsert simp del: set_map)

lemma distinct_fold_upsert:
  "distinct (map URL rs) \<Longrightarrow> distinct (map URL (fold upsert ss rs))"
  by (induction ss arbitrary: rs) (auto simp: distinct_upsert)

lemma last_saved_None: "last_saved ss u = None \<longleftrightarrow> u \<notin> set (map URL ss)"
  by (induction ss) (auto split: option.splits)

lemma fold_upsert_untouched:
  "r \<in> set (fold upsert ss rs) \<Longrightarrow> URL r \<notin> set (map URL ss) \<Longrightarrow> r \<in> set rs"
proof (induction ss arbitrary: rs)
  case Nil
  then show ?case by simp
next
  case (Cons s ss)
  then have "r \<in> set (upsert s rs)" by simp
  moreover from Cons.prems have "URL r \<noteq> URL s" by auto
  ultimately show ?case by (rule upsert_other_URL)
qed

lemma fold_upsert_last_saved:
  "r \<in> set (fold upsert ss rs) \<Longrightarrow> last_saved ss (URL r) = Some x \<Longrightarrow> r = x"
proof (induction ss arbitrary: rs)
  case Nil
  then show ?case by simp
next
  case (Cons s ss)
  from Cons.prems(1) have r: "r \<in> set (fold upsert ss (upsert s rs))" by simp
  show ?case
  proof (cases "last_saved ss (URL r)")
    case None
    with Cons.prems(2) have sx: "URL s = URL r" "x = s" by (auto split: if_splits)
    from None have "URL r \<notin> set (map URL ss)" by (simp add: last_saved_None)
    with r have "r \<in> set (upsert s rs)" by (rule fold_upsert_untouched)
    with sx show ?thesis by (simp add: upsert_same_URL)
  next
    case (Some y)
    with Cons.prems(2) have "y = x" by simp
    with Some r Cons.IH show ?thesis by blast
  qed
qed

lemma fold_upsert_present:
  "set (map URL ss) \<subseteq> set (map URL rs) \<Longrightarrow>
     fold upsert ss rs = map (\<lambda>r. case last_saved ss (URL r) of Some x \<Rightarrow> x | None \<Rightarrow> r) rs"
proof (induction ss arbitrary: rs)
  case Nil
  then show ?case by simp
next
  case (Cons s ss)
  then have p: "URL s \<in> set (map URL rs)" by simp
  then have u: "upsert s rs = map (\<lambda>r. if URL r = URL s then s else r) rs"
    by (rule upsert_present)
  from p have "map URL (upsert s rs) = map URL rs" by (simp add: map_URL_upsert)
  with Cons.prems have "set (map URL ss) \<subseteq> set (map URL (upsert s rs))" by simp
  then have "fold upsert ss (upsert s rs) =
      map (\<lambda>r. case last_saved ss (URL r) of Some x \<Rightarrow> x | None \<Rightarrow> r) (upsert s rs)"
    by (rule Cons.IH)
  then show ?case
    by (auto simp: u split: option.splits)
qed

text \<open>Saving the same records a second time changes nothing.\<close>

lemma fold_upsert_idem: "fold upsert ss (fold upsert ss rs) = fold upsert ss rs"
proof -
  let ?rs = "fold upsert ss rs"
  have "set (map URL ss) \<subseteq> set (map URL ?rs)"
    by (simp add: URLs_fold_upsert del: set_map)
  then have "fold upsert ss ?rs =
      map (\<lambda>r. case last_saved ss (URL r) of Some x \<Rightarrow> x | None \<Rightarrow> r) ?rs"
    by (rule fold_upsert_present)
  also have "\<dots> = ?rs"
    by (rule map_idI) (auto split: option.splits dest: fold_upsert_last_saved)
  finally show ?thesis .
qed

lemma save_page_write_ok:
  "write_fault db = None \<Longrightarrow>
     save_page db page =
       (case page_Stars page of
          None \<Rightarrow> Panics NilDereference
        | Some ss \<Rightarrow> Return (db\<lparr>rows := fold upsert ss (rows db)\<rparr>))"
proof (induction page arbitrary: db)
  case Nil
  then show ?case by simp
next
  case (Cons r page)
  show ?case
  proof (cases r)
    case None
    then show ?thesis by (simp add: SaveStarredRepository_def)
  next
    case (Some repo)
    show ?thesis
    proof (cases "new_Star repo")
      case None
      with Some show ?thesis by (simp add: SaveStarredRepository_def)
    next
      case (Some star)
      let ?db = "db\<lparr>rows := upsert star (rows db)\<rparr>"
      have w: "write_fault ?db = None" using Cons.prems by simp
      have "save_page db (r # page) = save_page ?db page"
        using Some \<open>r = Some repo\<close> Cons.prems
        by (simp add: SaveStarredRepository_def DB_Save_def)
      also have "\<dots> = (case page_Stars page of
          None \<Rightarrow> Panics NilDereference
        | Some ss \<Rightarrow> Return (?db\<lparr>rows := fold upsert ss (rows ?db)\<rparr>))"
        using w by (rule Cons.IH)
      finally show ?thesis
        using Some \<open>r = Some repo\<close> by (simp split: option.splits)
    qed
  qed
qed

lemma save_page_write_fault:
  "write_fault db = Some msg \<Longrightarrow>
     save_page db page =
       (case page_Stars page of None \<Rightarrow> Panics NilDereference | Some ss \<Rightarrow> Return db)"
  by (induction page)
     (auto simp: SaveStarredRepository_def DB_Save_def split: option.splits)

lemma save_page_idem:
  assumes "save_page db page = Return db1"
  shows "save_page db1 page = Return db1"
proof (cases "write_fault db")
  case None
  with assms obtain ss where ss: "page_Stars page = Some ss"
    and db1: "db1 = db\<lparr>rows := fold upsert ss (rows db)\<rparr>"
    by (auto simp: save_page_write_ok split: option.splits)
  from db1 None have "write_fault db1 = None" by simp
  then show ?thesis
    using ss db1 by (simp add: save_page_write_ok fold_upsert_idem)
next
  case (Some msg)
  with assms show ?thesis
    by (auto simp: save_page_write_fault split: option.splits)
qed

lemma save_page_wf:
  assumes "save_page db page = Return db1" and "wf_DB db"
  shows "wf_DB db1"
proof (cases "write_fault db")
  case None
  with assms show ?thesis
    by (auto simp: save_page_write_ok wf_DB_def distinct_fold_upsert split: option.splits)
next
  case (Some msg)
  with assms show ?thesis
    by (auto simp: save_page_write_fault split: option.splits)
qed

lemma page_Stars_member:
  "page_Stars page = Some ss \<Longrightarrow> Some repo \<in> set page \<Longrightarrow> new_Star repo = Some star
     \<Longrightarrow> star \<in> set ss"
  by (induction page arbitrary: ss) (auto split: option.splits)

lemma one_record_for_key:
  "distinct (map f xs) \<Longrightarrow> u \<in> set (map f xs) \<Longrightarrow> length (filter (\<lambda>x. f x = u) xs) = 1"
proof (induction xs)
  case Nil
  then show ?case by simp
next
  case (Cons x xs)
  show ?case
  proof (cases "f x = u")
    case True
    with Cons.prems(1) have "u \<notin> f ` set xs" by simp
    then have "filter (\<lambda>x. f x = u) xs = []" by (auto simp: filter_empty_conv)
    with True show ?thesis by simp
  next
    case False
    with Cons show ?thesis by auto
  qed
qed

lemma save_page_one_record:
  assumes "save_page db page = Return db1" and "wf_DB db" and "write_fault db = None"
    and "Some repo \<in> set page" and "new_Star repo = Some star"
  shows "length (filter (\<lambda>s. URL s = URL star) (rows db1)) = 1"
proof -
  from assms(1,3) obtain ss where ss: "page_Stars page = Some ss"
    and db1: "rows db1 = fold upsert ss (rows db)"
    by (auto simp: save_page_write_ok split: option.splits)
  from ss assms(4,5) have "star \<in> set ss" by (rule page_Stars_member)
  then have "URL star \<in> set (map URL ss)" by simp
  then have "URL star \<in> set (map URL (rows db1))"
    by (simp only: db1 URLs_fold_upsert Un_iff) simp
  moreover from assms(1,2) have "distinct (map URL (rows db1))"
    using save_page_wf wf_DB_def by blast
  ultimately show ?thesis by (intro one_record_for_key)
qed

lemma page_Stars_set:
  "page_Stars page = Some ss \<Longrightarrow>
     set ss = {star. \<exists>repo. Some repo \<in> set page \<and> new_Star repo = Some star}"
  by (induction page arbitrary: ss) (auto split: option.splits)

lemma map_URL_fold_upsert_present:
  "set (map URL ss) \<subseteq> set (map URL rs) \<Longrightarrow> map URL (fold upsert ss rs) = map URL rs"
proof (induction ss arbitrary: rs)
  case Nil
  then show ?case by simp
next
  case (Cons s ss)
  then have "URL s \<in> set (map URL rs)" by simp
  then have u: "map URL (upsert s rs) = map URL rs" by (simp add: map_URL_upsert)
  with Cons.prems have "set (map URL ss) \<subseteq> set (map URL (upsert s rs))" by simp
  then have "map URL (fold upsert ss (upsert s rs)) = map URL (upsert s rs)"
    by (rule Cons.IH)
  with u show ?case by simp
qed

text \<open>
  Saving the entries of a page again, in whatever order, leaves the URLs of the store and
  their order as they are.
\<close>

lemma save_page_again:
  assumes "save_page db page = Return db1" and "set page' = set page"
    and "save_page db1 page' = Return db2"
  shows "map URL (rows db2) = map URL (rows db1)"
proof (cases "write_fault db")
  case None
  with assms(1) obtain ss where ss: "page_Stars page = Some ss"
    and db1: "db1 = db\<lparr>rows := fold upsert ss (rows db)\<rparr>"
    by (auto simp: save_page_write_ok split: option.splits)
  from db1 None have w1: "write_fault db1 = None" by simp
  with assms(3) obtain ss' where ss': "page_Stars page' = Some ss'"
    and db2: "db2 = db1\<lparr>rows := fold upsert ss' (rows db1)\<rparr>"
    by (auto simp: save_page_write_ok split: option.splits)
  from ss ss' assms(2) have "set ss' = set ss"
    by (simp add: page_Stars_set)
  then have "set (map URL ss') = set (map URL ss)" by simp
  also have "\<dots> \<subseteq> set (map URL (rows db1))"
    by (simp add: db1 URLs_fold_upsert del: set_map)
  finally have "map URL (fold upsert ss' (rows db1)) = map URL (rows db1)"
    by (rule map_URL_fold_upsert_present)
  then show ?thesis by (simp add: db2)
next
  case (Some msg)
  with assms(1) have "db1 = db"
    by (auto simp: save_page_write_fault split: option.splits)
  with Some assms(3) show ?thesis
    by (auto simp: save_page_write_fault split: option.splits)
qed

text \<open>
  C7, as the code has it. A repository whose other pointers are set is saved without a panic
  whether or not it has a language and a description. When the write succeeds, the store
  holds for its URL exactly the record built from it: the language lower-cased, the empty
  string for a missing language or description, and the topics as they came. Topics that are
  missing stay the \<^verbatim>\<open>nil\<close> slice, which has no elements.
\<close>

theorem SaveStarredRepository_normalises:
  assumes "r_PushedAt repo = Some pushedAt" and "r_HTMLURL repo = Some htmlURL"
    and "r_StargazersCount repo = Some n" and "r_Archived repo = Some archived"
  shows "(\<exists>db' err. SaveStarredRepository db (Some repo) = Return (db', err)) \<and>
         (write_fault db = None \<longrightarrow>
           (\<exists>db' star.
              SaveStarredRepository db (Some repo) = Return (db', None) \<and>
              star \<in> set (rows db') \<and>
              (\<forall>s \<in> set (rows db'). URL s = htmlURL \<longrightarrow> s = star) \<and>
              URL star = htmlURL \<and>
              Language star = ToLower (case r_Language repo of Some l \<Rightarrow> l | None \<Rightarrow> '''') \<and>
              (r_Language repo = None \<longrightarrow> Language star = '''') \<and>
              Description star = (case r_Description repo of Some d \<Rightarrow> d | None \<Rightarrow> '''') \<and>
              Topics star = r_Topics repo \<and>
              (r_Topics repo = Nil_slice \<longrightarrow> elems (Topics star) = [])))"
proof -
  let ?star = "\<lparr>PushedAt = pushedAt, URL = htmlURL,
           Language = ToLower (case r_Language repo of Some l \<Rightarrow> l | None \<Rightarrow> ''''),
           Stargazers = n, Archived = archived,
           Description = (case r_Description repo of Some d \<Rightarrow> d | None \<Rightarrow> ''''),
           Topics = r_Topics repo\<rparr>"
  have ns: "new_Star repo = Some ?star"
    using assms by (rule new_Star_Some)
  have 1: "\<exists>db' err. SaveStarredRepository db (Some repo) = Return (db', err)"
    by (cases "write_fault db") (simp_all add: SaveStarredRepository_def ns DB_Save_def)
  have 2: "\<exists>db' star.
              SaveStarredRepository db (Some repo) = Return (db', None) \<and>
              star \<in> set (rows db') \<and>
              (\<forall>s \<in> set (rows db'). URL s = htmlURL \<longrightarrow> s = star) \<and>
              URL star = htmlURL \<and>
              Language star = ToLower (case r_Language repo of Some l \<Rightarrow> l | None \<Rightarrow> '''') \<and>
              (r_Language repo = None \<longrightarrow> Language star = '''') \<and>
              Description star = (case r_Description repo of Some d \<Rightarrow> d | None \<Rightarrow> '''') \<and>
              Topics star = r_Topics repo \<and>
              (r_Topics repo = Nil_slice \<longrightarrow> elems (Topics star) = [])"
    if w: "write_fault db = None"
  proof (intro exI conjI)
    show "SaveStarredRepository db (Some repo) = Return (db\<lparr>rows := upsert ?star (rows db)\<rparr>, None)"
      using w by (simp add: SaveStarredRepository_def ns DB_Save_def)
    show "?star \<in> set (rows (db\<lparr>rows := upsert ?star (rows db)\<rparr>))"
      by (simp add: in_upsert)
    show "\<forall>s \<in> set (rows (db\<lparr>rows := upsert ?star (rows db)\<rparr>)). URL s = htmlURL \<longrightarrow> s = ?star"
      using upsert_same_URL [of _ ?star "rows db"] by simp
    show "r_Language repo = None \<longrightarrow> Language ?star = ''''"
      by (simp add: ToLower_def)
  qed simp_all
  from 1 2 show ?thesis by blast
qed

theorem SaveStarredRepository_normalises_witness:
  "r_PushedAt repo_no_language = Some (date 2026 1 1) \<and>
   r_HTMLURL repo_no_language = Some ''https://github.com/gkze/notes'' \<and>
   r_StargazersCount repo_no_language = Some 1 \<and>
   r_Archived repo_no_language = Some False \<and>
   write_fault (db_ok [star_stars]) = None \<and>
   (\<exists>db' star.
      SaveStarredRepository (db_ok [star_stars]) (Some repo_no_language) = Return (db', None) \<and>
      star \<in> set (rows db') \<and> URL star = ''https://github.com/gkze/notes'' \<and>
      Language star = '''' \<and> Description star = '''' \<and> Topics star = Nil_slice \<and>
      elems (Topics star) = []) \<and>
   (\<exists>db' star.
      SaveStarredRepository (db_ok [star_stars]) (Some repo_stars) = Return (db', None) \<and>
      star \<in> set (rows db') \<and> URL star = ''https://github.com/gkze/stars'' \<and>
      Language star = ''go'' \<and> Description star = '''' \<and> Topics star = Slice [])"
proof -
  have f: "r_PushedAt repo_no_language = Some (date 2026 1 1)"
    "r_HTMLURL repo_no_language = Some ''https://github.com/gkze/notes''"
    "r_StargazersCount repo_no_language = Some 1"
    "r_Archived repo_no_language = Some False"
    by (simp_all add: repo_no_language_def)
  have g: "r_PushedAt repo_stars = Some (date 2026 10 2)"
    "r_HTMLURL repo_stars = Some ''https://github.com/gkze/stars''"
    "r_StargazersCount repo_stars = Some 8"
    "r_Archived repo_stars = Some False"
    by (simp_all add: repo_stars_def)
  have w: "write_fault (db_ok [star_stars]) = None" by (simp add: db_ok_def)
  have n: "r_Language repo_no_language = None" "r_Description repo_no_language = None"
    "r_Topics repo_no_language = Nil_slice"
    by (simp_all add: repo_no_language_def)
  have s: "r_Language repo_stars = Some ''Go''" "r_Description repo_stars = None"
    "r_Topics repo_stars = Slice []"
    by (simp_all add: repo_stars_def)
  have lower: "ToLower ''Go'' = ''go''"
    by code_simp
  have 1: "\<exists>db' star.
      SaveStarredRepository (db_ok [star_stars]) (Some repo_no_language) = Return (db', None) \<and>
      star \<in> set (rows db') \<and> URL star = ''https://github.com/gkze/notes'' \<and>
      Language star = '''' \<and> Description star = '''' \<and> Topics star = Nil_slice \<and>
      elems (Topics star) = []"
    using SaveStarredRepository_normalises [OF f, of "db_ok [star_stars]"] w n
    by (simp add: ToLower_def) (metis elems.simps(1))
  have 2: "\<exists>db' star.
      SaveStarredRepository (db_ok [star_stars]) (Some repo_stars) = Return (db', None) \<and>
      star \<in> set (rows db') \<and> URL star = ''https://github.com/gkze/stars'' \<and>
      Language star = ''go'' \<and> Description star = '''' \<and> Topics star = Slice []"
    using SaveStarredRepository_normalises [OF g, of "db_ok [star_stars]"] w s lower
    by simp blast
  from f w 1 2 show ?thesis by blast
qed

text \<open>
  The claim as it is worded fails for the topics: nothing replaces missing topics by an
  empty slice. The record saved for a repository without topics has the \<^verbatim>\<open>nil\<close> slice as its
  topics, the null value of a slice, not an allocated empty one.
\<close>

theorem SaveStarredRepository_keeps_nil_topics:
  "r_Topics repo_no_language = Nil_slice \<and>
   SaveStarredRepository (db_ok []) (Some repo_no_language) =
     Return (db_ok [\<lparr>PushedAt = date 2026 1 1, URL = ''https://github.com/gkze/notes'',
                     Language = '''', Stargazers = 1, Archived = False, Description = '''',
                     Topics = Nil_slice\<rparr>], None) \<and>
   (Nil_slice :: string slice) \<noteq> Slice []"
  by (simp add: SaveStarredRepository_def new_Star_def repo_no_language_def DB_Save_def
      upsert_def db_ok_def ToLower_def)

text \<open>
  C8. Saving is an upsert on the URL. In a store with one record for each URL, saving a
  repository whose URL is already there replaces that record where it stands: the URLs of
  the store and their order, and so the number of records, stay as they were, and no URL
  occurs twice. Saving a page a second time gives the store that the first time gave; when
  the second time saves the entries in another order, the URLs of the store, their order
  and their number are still those of the first time. When the writes succeed, the store has
  exactly one record for the URL of each repository of the page.
\<close>

theorem save_is_upsert_on_URL:
  assumes "wf_DB db"
  shows "(write_fault db = None \<and> new_Star repo = Some star \<and>
          URL star \<in> set (map URL (rows db)) \<longrightarrow>
            (\<exists>db'. SaveStarredRepository db (Some repo) = Return (db', None) \<and>
                   rows db' = map (\<lambda>r. if URL r = URL star then star else r) (rows db) \<and>
                   map URL (rows db') = map URL (rows db) \<and>
                   length (rows db') = length (rows db) \<and>
                   wf_DB db'))
         \<and>
         (save_page db page = Return db1 \<longrightarrow>
            wf_DB db1 \<and> save_page db1 page = Return db1 \<and>
            (\<forall>page' db2. set page' = set page \<and> save_page db1 page' = Return db2 \<longrightarrow>
               map URL (rows db2) = map URL (rows db1) \<and>
               length (rows db2) = length (rows db1) \<and> wf_DB db2) \<and>
            (write_fault db = None \<longrightarrow>
               (\<forall>r star'. Some r \<in> set page \<and> new_Star r = Some star' \<longrightarrow>
                  length (filter (\<lambda>s. URL s = URL star') (rows db1)) = 1)))"
proof (intro conjI impI)
  assume a: "write_fault db = None \<and> new_Star repo = Some star \<and>
          URL star \<in> set (map URL (rows db))"
  let ?db' = "db\<lparr>rows := upsert star (rows db)\<rparr>"
  from a have "SaveStarredRepository db (Some repo) = Return (?db', None)"
    by (simp add: SaveStarredRepository_def DB_Save_def)
  moreover from a have "rows ?db' = map (\<lambda>r. if URL r = URL star then star else r) (rows db)"
    by (simp add: upsert_present)
  moreover from a have u: "map URL (rows ?db') = map URL (rows db)"
    by (simp add: map_URL_upsert)
  moreover from u have "length (rows ?db') = length (rows db)"
    by (metis length_map)
  moreover from u assms have "wf_DB ?db'"
    by (simp add: wf_DB_def)
  ultimately show "\<exists>db'. SaveStarredRepository db (Some repo) = Return (db', None) \<and>
                   rows db' = map (\<lambda>r. if URL r = URL star then star else r) (rows db) \<and>
                   map URL (rows db') = map URL (rows db) \<and>
                   length (rows db') = length (rows db) \<and>
                   wf_DB db'"
    by blast
next
  assume "save_page db page = Return db1"
  then show "wf_DB db1" using assms by (rule save_page_wf)
next
  assume "save_page db page = Return db1"
  then show "save_page db1 page = Return db1" by (rule save_page_idem)
next
  assume s1: "save_page db page = Return db1"
  show "\<forall>page' db2. set page' = set page \<and> save_page db1 page' = Return db2 \<longrightarrow>
               map URL (rows db2) = map URL (rows db1) \<and>
               length (rows db2) = length (rows db1) \<and> wf_DB db2"
  proof (intro allI impI)
    fix page' db2
    assume a: "set page' = set page \<and> save_page db1 page' = Return db2"
    with s1 have u: "map URL (rows db2) = map URL (rows db1)"
      using save_page_again by blast
    then have "length (rows db2) = length (rows db1)"
      by (metis length_map)
    moreover from s1 assms have "wf_DB db1" by (rule save_page_wf)
    with a have "wf_DB db2" using save_page_wf by blast
    ultimately show "map URL (rows db2) = map URL (rows db1) \<and>
               length (rows db2) = length (rows db1) \<and> wf_DB db2"
      using u by blast
  qed
next
  assume "save_page db page = Return db1" and "write_fault db = None"
  then show "\<forall>r star'. Some r \<in> set page \<and> new_Star r = Some star' \<longrightarrow>
                  length (filter (\<lambda>s. URL s = URL star') (rows db1)) = 1"
    using assms save_page_one_record by blast
qed

theorem save_is_upsert_on_URL_witness:
  "wf_DB (db_ok [star_stars]) \<and> write_fault (db_ok [star_stars]) = None \<and>
   (\<exists>star. new_Star repo_stars = Some star \<and>
      URL star \<in> set (map URL (rows (db_ok [star_stars]))) \<and>
      (\<exists>db'. SaveStarredRepository (db_ok [star_stars]) (Some repo_stars) = Return (db', None) \<and>
             rows db' = [star] \<and> length (rows db') = 1 \<and> wf_DB db')) \<and>
   (\<exists>db1. save_page (db_ok [star_stars]) [Some repo_stars, Some repo_no_language, Some repo_stars]
            = Return db1 \<and>
      length (rows db1) = 2 \<and> wf_DB db1 \<and>
      save_page db1 [Some repo_stars, Some repo_no_language, Some repo_stars] = Return db1)"
proof -
  let ?db = "db_ok [star_stars]"
  let ?page = "[Some repo_stars, Some repo_no_language, Some repo_stars]"
  have wf: "wf_DB ?db" by (simp add: wf_DB_def db_ok_def)
  have w: "write_fault ?db = None" by (simp add: db_ok_def)
  have rows: "rows ?db = [star_stars]" by (simp add: db_ok_def)
  obtain star where ns: "new_Star repo_stars = Some star"
    and u: "URL star = ''https://github.com/gkze/stars''"
    by (simp add: new_Star_def repo_stars_def)
  obtain star2 where ns2: "new_Star repo_no_language = Some star2"
    and u2: "URL star2 = ''https://github.com/gkze/notes''"
    by (simp add: new_Star_def repo_no_language_def)
  have us: "URL star_stars = ''https://github.com/gkze/stars''" by (simp add: star_stars_def)
  have p: "URL star \<in> set (map URL (rows ?db))" by (simp add: rows u us)
  from save_is_upsert_on_URL [OF wf, of repo_stars star] w ns p
  obtain db' where "SaveStarredRepository ?db (Some repo_stars) = Return (db', None)"
    and "rows db' = map (\<lambda>r. if URL r = URL star then star else r) (rows ?db)"
    and "wf_DB db'"
    by blast
  then have 1: "\<exists>db'. SaveStarredRepository ?db (Some repo_stars) = Return (db', None) \<and>
             rows db' = [star] \<and> length (rows db') = 1 \<and> wf_DB db'"
    by (simp add: rows u us)
  have ps: "page_Stars ?page = Some [star, star2, star]" by (simp add: ns ns2)
  have f: "fold upsert [star, star2, star] (rows ?db) = [star, star2]"
    by (simp add: rows upsert_def u u2 us)
  have "save_page ?db ?page =
      (case page_Stars ?page of
         None \<Rightarrow> Panics NilDereference
       | Some ss \<Rightarrow> Return (?db\<lparr>rows := fold upsert ss (rows ?db)\<rparr>))"
    using w by (rule save_page_write_ok)
  then have sp: "save_page ?db ?page = Return (?db\<lparr>rows := [star, star2]\<rparr>)"
    by (simp only: ps option.case f)
  note again = save_is_upsert_on_URL
                 [OF wf, of _ _ ?page "?db\<lparr>rows := [star, star2]\<rparr>",
                  THEN conjunct2, THEN mp, OF sp]
  have "wf_DB (?db\<lparr>rows := [star, star2]\<rparr>) \<and>
        save_page (?db\<lparr>rows := [star, star2]\<rparr>) ?page = Return (?db\<lparr>rows := [star, star2]\<rparr>)"
    using again [THEN conjunct1] again [THEN conjunct2, THEN conjunct1] by (rule conjI)
  with sp have 2: "\<exists>db1. save_page ?db ?page = Return db1 \<and>
      length (rows db1) = 2 \<and> wf_DB db1 \<and> save_page db1 ?page = Return db1"
    by (intro exI [of _ "?db\<lparr>rows := [star, star2]\<rparr>"]) simp
  from wf w ns p 1 2 show ?thesis by blast
qed

section \<open>Fetching pages: a failing page, and the wait group\<close>

lemma SaveStarredPage_error_blocks:
  "ListStarred pageno = (firstPage, response, Some err) \<Longrightarrow>
     SaveStarredPage ListStarred pageno responses' = BlocksForever"
  by (simp add: SaveStarredPage_def)

text \<open>
  C2, what the code does. When \<^verbatim>\<open>ListStarred\<close> fails, the call of \<^verbatim>\<open>SaveStarredPage\<close> blocks
  in the send on its own unbuffered channel and never returns, so its caller gets no error.
  In \<^verbatim>\<open>SaveAllStars\<close> with a failing first page, the page goroutine is blocked with the
  wait group at 1 and the main goroutine is blocked in the receive from \<^verbatim>\<open>responses\<close>:
  neither can take a step.
\<close>

theorem SaveStarredPage_gateway_error_blocks:
  "SaveStarredPage failing_page 1 True = BlocksForever \<and>
   run failing_page [Main, Goroutine 0, Goroutine 0] (SaveAllStars_start (db_ok [])) =
     Some \<lparr>main = M_Recv, wg = 1, responses = [],
           goroutines = [Page 1 True (P_Blocked (GatewayError ''502 Bad Gateway''))],
           store = db_ok [], panicked = None\<rparr> \<and>
   step_main \<lparr>main = M_Recv, wg = 1, responses = [],
           goroutines = [Page 1 True (P_Blocked (GatewayError ''502 Bad Gateway''))],
           store = db_ok [], panicked = None\<rparr> = None \<and>
   step_goroutine failing_page 0 \<lparr>main = M_Recv, wg = 1, responses = [],
           goroutines = [Page 1 True (P_Blocked (GatewayError ''502 Bad Gateway''))],
           store = db_ok [], panicked = None\<rparr> = None"
  by (simp add: SaveStarredPage_def failing_page_def step_main_def step_goroutine_def
      SaveAllStars_start_def)

lemma run_append:
  "run ListStarred (cs @ ds) s =
     (case run ListStarred cs s of None \<Rightarrow> None | Some s' \<Rightarrow> run ListStarred ds s')"
  by (induction cs arbitrary: s) (auto split: option.splits)

text \<open>
  Under every schedule, a goroutine for a page other than page 1 exists only after the main
  goroutine has received the response of page 1.
\<close>

lemma in_set_update: "g \<in> set (gs[k := x]) \<Longrightarrow> g = x \<or> g \<in> set gs"
  by (metis in_set_conv_nth length_list_update nth_list_update_eq nth_list_update_neq nth_mem)

lemma step_main_only_first_page:
  assumes "step_main s = Some s'" and "only_first_page s"
  shows "only_first_page s'"
proof (cases "main s")
  case M_Go
  with assms show ?thesis by (auto simp: step_main_def only_first_page_def)
next
  case M_Recv
  with assms show ?thesis
    by (auto simp: step_main_def only_first_page_def split: list.splits)
next
  case (M_Loop i lastPage)
  with assms show ?thesis
    by (auto simp: step_main_def only_first_page_def split: if_splits)
next
  case M_Wait
  with assms show ?thesis
    by (auto simp: step_main_def only_first_page_def split: if_splits)
next
  case M_Returned
  with assms show ?thesis by (simp add: step_main_def)
qed

lemma step_goroutine_pages:
  assumes "step_goroutine ListStarred k s = Some s'"
  shows "main s' = main s" and
    "Page i b pc \<in> set (goroutines s') \<Longrightarrow> \<exists>pc'. Page i b pc' \<in> set (goroutines s)"
proof -
  let ?gs = "goroutines s"
  from assms have k: "k < length ?gs"
    by (auto simp: step_goroutine_def Let_def split: if_splits)
  then have mem: "?gs ! k \<in> set ?gs" by simp
  show "main s' = main s"
    using assms k
    by (auto simp: step_goroutine_def Let_def
        split: goroutine.splits page_pc.splits repo_pc.splits prod.splits option.splits
          list.splits if_splits outcome.splits)
  assume p: "Page i b pc \<in> set (goroutines s')"
  show "\<exists>pc'. Page i b pc' \<in> set ?gs"
  proof (cases "?gs ! k")
    case (Page pageno resp pc0)
    with assms k have "set (goroutines s') \<subseteq>
        {Page pageno resp pc' | pc'. True} \<union> {Repo r R_Add | r. True} \<union> set ?gs"
      by (auto simp: step_goroutine_def Let_def
          split: page_pc.splits prod.splits option.splits list.splits if_splits
          dest!: in_set_update dest: in_set_takeD in_set_dropD)
    with p have "(i = pageno \<and> b = resp) \<or> Page i b pc \<in> set ?gs" by auto
    then show ?thesis
    proof
      assume "i = pageno \<and> b = resp"
      with Page mem have "Page i b pc0 \<in> set ?gs" by simp
      then show ?thesis ..
    next
      assume "Page i b pc \<in> set ?gs"
      then show ?thesis ..
    qed
  next
    case (Repo repo pc0)
    with assms k have "set (goroutines s') \<subseteq> {Repo repo pc' | pc'. True} \<union> set ?gs"
      by (auto simp: step_goroutine_def Let_def
          split: repo_pc.splits prod.splits outcome.splits
          dest!: in_set_update dest: in_set_takeD in_set_dropD)
    with p show ?thesis by auto
  qed
qed

lemma step_goroutine_only_first_page:
  assumes "step_goroutine ListStarred k s = Some s'" and "only_first_page s"
  shows "only_first_page s'"
  using assms step_goroutine_pages [OF assms(1)]
  unfolding only_first_page_def by metis

lemma run_only_first_page:
  "run ListStarred schedule s = Some s' \<Longrightarrow> only_first_page s \<Longrightarrow> only_first_page s'"
proof (induction schedule arbitrary: s)
  case Nil
  then show ?case by simp
next
  case (Cons c cs)
  show ?case
  proof (cases c)
    case Main
    with Cons.prems(1) obtain s1 where "step_main s = Some s1"
      and "run ListStarred cs s1 = Some s'"
      by (auto split: if_splits option.splits)
    with Cons.IH Cons.prems(2) show ?thesis
      using step_main_only_first_page by blast
  next
    case (Goroutine k)
    with Cons.prems(1) obtain s1 where "step_goroutine ListStarred k s = Some s1"
      and "run ListStarred cs s1 = Some s'"
      by (auto split: if_splits option.splits)
    with Cons.IH Cons.prems(2) show ?thesis
      using step_goroutine_only_first_page by blast
  qed
qed

lemma pages_started_after_first_response:
  assumes "run ListStarred schedule (SaveAllStars_start db) = Some s"
    and "Page i b pc \<in> set (goroutines s)" and "i \<noteq> 1"
  shows "main s \<noteq> M_Go \<and> main s \<noteq> M_Recv"
proof -
  have "only_first_page (SaveAllStars_start db)"
    by (simp add: only_first_page_def SaveAllStars_start_def)
  with assms(1) have "only_first_page s" by (rule run_only_first_page)
  with assms(2,3) show ?thesis unfolding only_first_page_def by blast
qed

text \<open>
  C3, what the code does. With two pages, there is a schedule in which the goroutine of
  page 1 runs up to its \<^verbatim>\<open>wg.Done()\<close> before the goroutine it started for its repository has
  run \<^verbatim>\<open>wg.Add(1)\<close>; the main goroutine then receives the response, starts the goroutine of
  page 2 and calls \<^verbatim>\<open>wg.Wait()\<close>, which finds the counter at 0. \<^verbatim>\<open>SaveAllStars\<close> has returned
  while the fetch of page 2 and the save of the repository of page 1 have not begun, and the
  store is still empty.
\<close>

theorem SaveAllStars_returns_before_goroutines_end:
  "run two_pages
     [Main, Goroutine 0, Goroutine 0, Goroutine 0, Goroutine 0, Goroutine 0, Goroutine 0,
      Main, Main, Main, Main]
     (SaveAllStars_start (db_ok [])) =
     Some \<lparr>main = M_Returned, wg = 0, responses = [],
           goroutines = [Repo (Some repo_stars) R_Add, Page 2 False P_Add],
           store = db_ok [], panicked = None\<rparr>"
proof -
  let ?page1_done = "\<lparr>main = M_Recv, wg = 0, responses = [\<lparr>LastPage = 2\<rparr>],
           goroutines = [Repo (Some repo_stars) R_Add],
           store = db_ok [], panicked = None\<rparr>"
  let ?returned = "\<lparr>main = M_Returned, wg = 0, responses = [],
           goroutines = [Repo (Some repo_stars) R_Add, Page 2 False P_Add],
           store = db_ok [], panicked = None\<rparr>"
  have started: "run two_pages [Main] (SaveAllStars_start (db_ok [])) =
      Some \<lparr>main = M_Recv, wg = 0, responses = [], goroutines = [Page 1 True P_Add],
            store = db_ok [], panicked = None\<rparr>"
    by (simp add: step_main_def SaveAllStars_start_def)
  have page1: "run two_pages
      [Goroutine 0, Goroutine 0, Goroutine 0, Goroutine 0, Goroutine 0, Goroutine 0]
      \<lparr>main = M_Recv, wg = 0, responses = [], goroutines = [Page 1 True P_Add],
            store = db_ok [], panicked = None\<rparr> = Some ?page1_done"
    by (simp add: two_pages_def step_goroutine_def)
  have rest: "run two_pages [Main, Main, Main, Main] ?page1_done = Some ?returned"
    by (simp add: step_main_def)
  have "run two_pages
     ([Main] @ [Goroutine 0, Goroutine 0, Goroutine 0, Goroutine 0, Goroutine 0, Goroutine 0]
      @ [Main, Main, Main, Main])
     (SaveAllStars_start (db_ok [])) = Some ?returned"
    by (simp only: run_append started page1 rest option.case)
  then show ?thesis by simp
qed

end
